theory Spec2Isabelle
  imports Complex_Main "HOL-Library.AList" "HOL-Library.Multiset"
begin

section \<open>JavaScript numbers\<close>

text \<open>
  A JavaScript number is modelled as a real number or one of the three special values.
  Rounding to double precision and the sign of zero are not modelled: sums and quotients
  are the exact ones. Comparisons with \<open>NaN\<close> are false, as in the language.
\<close>

datatype number = NaN | NegInf | Fin real | PosInf

fun js_add :: "number \<Rightarrow> number \<Rightarrow> number" where
  "js_add NaN _ = NaN"
| "js_add _ NaN = NaN"
| "js_add PosInf NegInf = NaN"
| "js_add NegInf PosInf = NaN"
| "js_add PosInf _ = PosInf"
| "js_add _ PosInf = PosInf"
| "js_add NegInf _ = NegInf"
| "js_add _ NegInf = NegInf"
| "js_add (Fin a) (Fin b) = Fin (a + b)"

fun js_neg :: "number \<Rightarrow> number" where
  "js_neg NaN = NaN"
| "js_neg NegInf = PosInf"
| "js_neg PosInf = NegInf"
| "js_neg (Fin a) = Fin (- a)"

definition js_sub :: "number \<Rightarrow> number \<Rightarrow> number" where
  "js_sub a b = js_add a (js_neg b)"

text \<open>
  Division: a zero divisor gives \<open>NaN\<close> for \<open>0 / 0\<close> and an infinity otherwise
  (the divisor is the positive zero: every divisor of the program is a sum that starts
  at \<open>0\<close>).
\<close>

fun js_div :: "number \<Rightarrow> number \<Rightarrow> number" where
  "js_div NaN _ = NaN"
| "js_div _ NaN = NaN"
| "js_div (Fin a) (Fin b) =
     (if b = 0 then (if a = 0 then NaN else if 0 < a then PosInf else NegInf)
      else Fin (a / b))"
| "js_div (Fin a) _ = Fin 0"
| "js_div PosInf (Fin b) = (if 0 \<le> b then PosInf else NegInf)"
| "js_div NegInf (Fin b) = (if 0 \<le> b then NegInf else PosInf)"
| "js_div _ _ = NaN"

fun js_lt :: "number \<Rightarrow> number \<Rightarrow> bool" where
  "js_lt NaN _ = False"
| "js_lt _ NaN = False"
| "js_lt (Fin a) (Fin b) = (a < b)"
| "js_lt NegInf NegInf = False"
| "js_lt NegInf _ = True"
| "js_lt _ NegInf = False"
| "js_lt PosInf _ = False"
| "js_lt _ PosInf = True"

definition js_gt :: "number \<Rightarrow> number \<Rightarrow> bool" where
  "js_gt a b = js_lt b a"

fun js_le :: "number \<Rightarrow> number \<Rightarrow> bool" where
  "js_le NaN _ = False"
| "js_le _ NaN = False"
| "js_le a b = (\<not> js_lt b a)"

definition js_ge :: "number \<Rightarrow> number \<Rightarrow> bool" where
  "js_ge a b = js_le b a"

text \<open>\<open>x || 0\<close> on a number: \<open>NaN\<close> and zero are falsy.\<close>

definition or_zero :: "number \<Rightarrow> number" where
  "or_zero x = (if x = NaN \<or> x = Fin 0 then Fin 0 else x)"

section \<open>Time values and the calendar of ECMAScript\<close>

text \<open>
  A time value is a number of milliseconds since 1970-01-01T00:00:00Z; a \<open>Date\<close> object
  holds a time value or \<open>NaN\<close> (an invalid date), modelled as \<open>int option\<close>. The
  functions below are the abstract operations of the language specification (section
  "Date Objects") that the methods \<open>getDay\<close>, \<open>getDate\<close>, \<open>getMonth\<close>,
  \<open>getFullYear\<close> and \<open>setDate\<close> are defined by.
\<close>

definition msPerDay :: int where
  "msPerDay = 86400000"

definition Day :: "int \<Rightarrow> int" where
  "Day t = t div msPerDay"

definition TimeWithinDay :: "int \<Rightarrow> int" where
  "TimeWithinDay t = t mod msPerDay"

definition DaysInYear :: "int \<Rightarrow> int" where
  "DaysInYear y = (if y mod 4 \<noteq> 0 then 365 else if y mod 100 \<noteq> 0 then 366
                   else if y mod 400 \<noteq> 0 then 365 else 366)"

definition DayFromYear :: "int \<Rightarrow> int" where
  "DayFromYear y = 365 * (y - 1970) + (y - 1969) div 4 - (y - 1901) div 100 + (y - 1601) div 400"

lemma div_succ_int:
  fixes n k :: int
  assumes k: "0 < k"
  shows "(n + 1) div k = n div k + (if (n + 1) mod k = 0 then 1 else 0)"
proof -
  define q r where "q = n div k" and "r = n mod k"
  have n: "n = k * q + r" and r: "0 \<le> r" "r < k"
    using k by (simp_all add: q_def r_def)
  show ?thesis
  proof (cases "r + 1 < k")
    case True
    have "n + 1 = k * q + (r + 1)" using n by simp
    then have "(n + 1) div k = q" "(n + 1) mod k = r + 1"
      using True r by (auto intro: int_div_pos_eq int_mod_pos_eq)
    then show ?thesis using r by (simp add: q_def)
  next
    case False
    then have "n + 1 = k * (q + 1) + 0" using n r by (simp add: algebra_simps)
    then have "(n + 1) div k = q + 1" "(n + 1) mod k = 0"
      using k by (auto intro: int_div_pos_eq int_mod_pos_eq)
    then show ?thesis by (simp add: q_def)
  qed
qed

lemma mod_shift: "(y - c) mod k = 0 \<longleftrightarrow> y mod k = 0" if "c mod k = 0" for y c k :: int
  using that by (metis diff_zero mod_diff_cong mod_0)

lemma DayFromYear_Suc: "DayFromYear (y + 1) = DayFromYear y + DaysInYear y"
proof -
  have a: "(y + 1 - 1969) div 4 = (y - 1969) div 4 + (if y mod 4 = 0 then 1 else 0)"
    using div_succ_int [of 4 "y - 1969"] mod_shift [of 1968 4 y] by (simp add: algebra_simps)
  have b: "(y + 1 - 1901) div 100 = (y - 1901) div 100 + (if y mod 100 = 0 then 1 else 0)"
    using div_succ_int [of 100 "y - 1901"] mod_shift [of 1900 100 y] by (simp add: algebra_simps)
  have c: "(y + 1 - 1601) div 400 = (y - 1601) div 400 + (if y mod 400 = 0 then 1 else 0)"
    using div_succ_int [of 400 "y - 1601"] mod_shift [of 1600 400 y] by (simp add: algebra_simps)
  have d: "y mod 100 = 0 \<Longrightarrow> y mod 4 = 0" by auto
  have e: "y mod 400 = 0 \<Longrightarrow> y mod 100 = 0" by auto
  show ?thesis
    unfolding DayFromYear_def DaysInYear_def a b c using d e by auto
qed

lemma DaysInYear_bounds: "365 \<le> DaysInYear y \<and> DaysInYear y \<le> 366"
  by (simp add: DaysInYear_def)

text \<open>
  \<open>YearFromTime t\<close> is the largest year \<open>y\<close> with \<open>TimeFromYear y \<le> t\<close>. It is
  found by counting down from a year that is not before it.
\<close>

function year_down :: "int \<Rightarrow> int \<Rightarrow> int" where
  "year_down d y = (if DayFromYear y \<le> d then y else year_down d (y - 1))"
  by pat_completeness auto
termination
proof (relation "measure (\<lambda>(d, y). nat (DayFromYear y - d))")
  show "wf (measure (\<lambda>(d, y). nat (DayFromYear y - d)))" by simp
next
  fix d y :: int
  assume "\<not> DayFromYear y \<le> d"
  moreover have "DayFromYear (y - 1) < DayFromYear y"
    using DayFromYear_Suc [of "y - 1"] DaysInYear_bounds [of "y - 1"] by simp
  ultimately show "((d, y - 1), (d, y)) \<in> measure (\<lambda>(d, y). nat (DayFromYear y - d))"
    by simp
qed

declare year_down.simps [simp del]

definition YearFromTime :: "int \<Rightarrow> int" where
  "YearFromTime t =
     (let d = Day t in year_down d (1970 + d div (if 0 \<le> d then 365 else 366)))"

definition InLeapYear :: "int \<Rightarrow> int" where
  "InLeapYear t = (if DaysInYear (YearFromTime t) = 366 then 1 else 0)"

definition DayWithinYear :: "int \<Rightarrow> int" where
  "DayWithinYear t = Day t - DayFromYear (YearFromTime t)"

text \<open>The day within the year on which month \<open>m\<close> (0 to 11) starts; \<open>leap\<close> is 1 in
  a leap year and 0 otherwise.\<close>

definition month_start :: "int \<Rightarrow> int \<Rightarrow> int" where
  "month_start leap m =
     (if m = 0 then 0 else if m = 1 then 31 else if m = 2 then 59 + leap
      else if m = 3 then 90 + leap else if m = 4 then 120 + leap
      else if m = 5 then 151 + leap else if m = 6 then 181 + leap
      else if m = 7 then 212 + leap else if m = 8 then 243 + leap
      else if m = 9 then 273 + leap else if m = 10 then 304 + leap
      else 334 + leap)"

definition MonthFromTime :: "int \<Rightarrow> int" where
  "MonthFromTime t =
     (let d = DayWithinYear t; leap = InLeapYear t
      in if d < 31 then 0 else if d < 59 + leap then 1 else if d < 90 + leap then 2
         else if d < 120 + leap then 3 else if d < 151 + leap then 4
         else if d < 181 + leap then 5 else if d < 212 + leap then 6
         else if d < 243 + leap then 7 else if d < 273 + leap then 8
         else if d < 304 + leap then 9 else if d < 334 + leap then 10 else 11)"

definition DateFromTime :: "int \<Rightarrow> int" where
  "DateFromTime t = DayWithinYear t - month_start (InLeapYear t) (MonthFromTime t) + 1"

definition WeekDay :: "int \<Rightarrow> int" where
  "WeekDay t = (Day t + 4) mod 7"

text \<open>\<open>MakeDay\<close>: the day number of the first of the month, plus \<open>date - 1\<close>; a
  month outside 0 to 11 carries into the year.\<close>

definition MakeDay :: "int \<Rightarrow> int \<Rightarrow> int \<Rightarrow> int" where
  "MakeDay year month date =
     (let ym = year + month div 12; mn = month mod 12
      in DayFromYear ym + month_start (if DaysInYear ym = 366 then 1 else 0) mn + date - 1)"

definition MakeDate :: "int \<Rightarrow> int \<Rightarrow> int" where
  "MakeDate day time = day * msPerDay + time"

definition maxTime :: int where
  "maxTime = 8640000000000000"

definition TimeClip :: "int \<Rightarrow> int option" where
  "TimeClip t = (if \<bar>t\<bar> \<le> maxTime then Some t else None)"

section \<open>The runtime\<close>

text \<open>
  What the program reads from its environment: the string parser of \<open>new Date(string)\<close>
  (the language fixes it for the ISO format only, the rest is up to the implementation),
  the local time zone adjustment and the clock, read by \<open>new Date()\<close>.
  \<open>LocalTZA t isUTC\<close> is the offset of local time from UTC in milliseconds: at the UTC
  time \<open>t\<close> when \<open>isUTC\<close> is true, at the local time \<open>t\<close> otherwise. It depends on
  \<open>t\<close> where daylight saving time is observed.
\<close>

record runtime =
  Date_parse :: "string \<Rightarrow> int option"
  LocalTZA :: "int \<Rightarrow> bool \<Rightarrow> int"
  now :: int

definition LocalTime :: "runtime \<Rightarrow> int \<Rightarrow> int" where
  "LocalTime rt t = t + LocalTZA rt t True"

definition UTC :: "runtime \<Rightarrow> int \<Rightarrow> int" where
  "UTC rt t = t - LocalTZA rt t False"

text \<open>\<open>new Date(v)\<close> for a string or \<open>undefined\<close>, and for a \<open>Date\<close> object or
  a time value.\<close>

definition new_Date :: "runtime \<Rightarrow> string option \<Rightarrow> int option" where
  "new_Date rt v =
     (case v of None \<Rightarrow> None
      | Some s \<Rightarrow> (case Date_parse rt s of None \<Rightarrow> None | Some t \<Rightarrow> TimeClip t))"

definition Date_copy :: "int option \<Rightarrow> int option" where
  "Date_copy d = (case d of None \<Rightarrow> None | Some t \<Rightarrow> TimeClip t)"

definition getDay :: "runtime \<Rightarrow> int \<Rightarrow> int" where
  "getDay rt t = WeekDay (LocalTime rt t)"

definition getDate :: "runtime \<Rightarrow> int \<Rightarrow> int" where
  "getDate rt t = DateFromTime (LocalTime rt t)"

definition getMonth :: "runtime \<Rightarrow> int \<Rightarrow> int" where
  "getMonth rt t = MonthFromTime (LocalTime rt t)"

definition getFullYear :: "runtime \<Rightarrow> int \<Rightarrow> int" where
  "getFullYear rt t = YearFromTime (LocalTime rt t)"

definition setDate :: "runtime \<Rightarrow> int \<Rightarrow> int \<Rightarrow> int option" where
  "setDate rt t dt =
     (let lt = LocalTime rt t;
          newDate = MakeDate (MakeDay (YearFromTime lt) (MonthFromTime lt) dt) (TimeWithinDay lt)
      in TimeClip (UTC rt newDate))"

text \<open>
  \<open>startOfWeek\<close>. On an invalid date every getter is \<open>NaN\<close>, so \<open>diff\<close> is
  \<open>NaN\<close> and \<open>setDate\<close> leaves the date invalid.
\<close>

definition startOfWeek :: "runtime \<Rightarrow> int option \<Rightarrow> int option" where
  "startOfWeek rt date =
     (case Date_copy date of
        None \<Rightarrow> None
      | Some d \<Rightarrow>
          (let day = getDay rt d;
               diff = getDate rt d - day + (if day = 0 then - 6 else 1)
           in Date_copy (setDate rt d diff)))"

section \<open>Strings, numbers in strings\<close>

text \<open>\<open>String(n)\<close> for an integer, and \<open>padStart(2, '0')\<close>.\<close>

fun String_nat :: "nat \<Rightarrow> string" where
  "String_nat n =
     (if n < 10 then [''0123456789'' ! n]
      else String_nat (n div 10) @ [''0123456789'' ! (n mod 10)])"

declare String_nat.simps [simp del]

definition String_int :: "int \<Rightarrow> string" where
  "String_int i = (if i < 0 then CHR ''-'' # String_nat (nat (- i)) else String_nat (nat i))"

definition padStart2 :: "string \<Rightarrow> string" where
  "padStart2 s = replicate (2 - length s) CHR ''0'' @ s"

text \<open>
  \<open>formatDate(date, 'yyyy-MM-dd')\<close>: the local year, month and day of the month. Every
  getter of an invalid date is \<open>NaN\<close>, which prints as \<open>NaN\<close>.
\<close>

definition formatDate_yyyy_MM_dd :: "runtime \<Rightarrow> int option \<Rightarrow> string" where
  "formatDate_yyyy_MM_dd rt date =
     (case Date_copy date of
        None \<Rightarrow> ''NaN-NaN-NaN''
      | Some d \<Rightarrow> String_int (getFullYear rt d) @ ''-'' @ padStart2 (String_int (getMonth rt d + 1))
                  @ ''-'' @ padStart2 (String_int (getDate rt d)))"

definition is_digit :: "char \<Rightarrow> bool" where
  "is_digit c = (c \<in> set ''0123456789'')"

definition digit_val :: "char \<Rightarrow> nat" where
  "digit_val c = of_char c - 48"

definition digits_val :: "string \<Rightarrow> nat" where
  "digits_val ds = foldl (\<lambda>a c. 10 * a + digit_val c) 0 ds"

text \<open>
  \<open>parseFloat\<close>: leading white space is skipped (the ASCII white space and line
  terminators), then the longest prefix that is a decimal literal is read: an optional
  sign, then \<open>Infinity\<close> or digits with an optional fraction and an optional exponent.
  No such prefix gives \<open>NaN\<close>. The value is the exact decimal value.
  \<open>undefined\<close> is first converted to the string \<open>undefined\<close>.
\<close>

definition ToString :: "string option \<Rightarrow> string" where
  "ToString v = (case v of None \<Rightarrow> ''undefined'' | Some s \<Rightarrow> s)"

definition is_space :: "char \<Rightarrow> bool" where
  "is_space c = (of_char c \<in> {9, 10, 11, 12, 13, 32 :: nat})"

definition ExponentPart :: "string \<Rightarrow> int" where
  "ExponentPart s =
     (case s of
        e # r \<Rightarrow>
          (if e = CHR ''e'' \<or> e = CHR ''E'' then
             (case r of
                c # ds \<Rightarrow>
                  (if c = CHR ''+'' then int (digits_val (takeWhile is_digit ds))
                   else if c = CHR ''-'' then - int (digits_val (takeWhile is_digit ds))
                   else int (digits_val (takeWhile is_digit r)))
              | [] \<Rightarrow> 0)
           else 0)
      | [] \<Rightarrow> 0)"

definition scale10 :: "real \<Rightarrow> int \<Rightarrow> real" where
  "scale10 x e = (if 0 \<le> e then x * 10 ^ nat e else x / 10 ^ nat (- e))"

definition StrUnsignedDecimalLiteral :: "string \<Rightarrow> number" where
  "StrUnsignedDecimalLiteral s =
     (if take 8 s = ''Infinity'' then PosInf
      else
        (let ip = takeWhile is_digit s; r1 = dropWhile is_digit s;
             fp = (case r1 of c # r \<Rightarrow> if c = CHR ''.'' then takeWhile is_digit r else [] | [] \<Rightarrow> []);
             r2 = (case r1 of c # r \<Rightarrow> if c = CHR ''.'' then dropWhile is_digit r else r1 | [] \<Rightarrow> [])
         in if ip = [] \<and> fp = [] then NaN
            else Fin (scale10 (real (digits_val ip) + real (digits_val fp) / 10 ^ length fp)
                        (ExponentPart r2))))"

definition parseFloat :: "string option \<Rightarrow> number" where
  "parseFloat v =
     (case dropWhile is_space (ToString v) of
        c # r \<Rightarrow>
          (if c = CHR ''+'' then StrUnsignedDecimalLiteral r
           else if c = CHR ''-'' then js_neg (StrUnsignedDecimalLiteral r)
           else StrUnsignedDecimalLiteral (c # r))
      | [] \<Rightarrow> NaN)"

text \<open>
  One \<open>Date.parse\<close>: the date-only form \<open>YYYY-MM-DD\<close> of the ISO format, which the
  language reads as midnight UTC; a month or day out of range, and every other string,
  is \<open>NaN\<close>. It stands for the runtime's parser where the model is run on examples.
\<close>

definition Date_parse_ISO :: "string \<Rightarrow> int option" where
  "Date_parse_ISO s =
     (if length s = 10 \<and> s ! 4 = CHR ''-'' \<and> s ! 7 = CHR ''-''
         \<and> list_all is_digit (take 4 s @ take 2 (drop 5 s) @ drop 8 s)
      then
        (let y = int (digits_val (take 4 s));
             m = int (digits_val (take 2 (drop 5 s)));
             d = int (digits_val (drop 8 s))
         in if 1 \<le> m \<and> m \<le> 12 \<and> 1 \<le> d \<and> MakeDay y (m - 1) d < MakeDay y m 1
            then Some (MakeDate (MakeDay y (m - 1) d) 0) else None)
      else None)"

definition runtime_UTC :: "int \<Rightarrow> runtime" where
  "runtime_UTC clock = \<lparr>Date_parse = Date_parse_ISO, LocalTZA = (\<lambda>t isUTC. 0), now = clock\<rparr>"

text \<open>
  Two more runtimes with the same parser. One is five hours west of UTC all year (as in
  Bogota). The other has the rule of New York in 2024: five hours west of UTC, four
  while daylight saving time is on, from 2024-03-10T07:00Z until 2024-11-03T06:00Z; a
  local time that the change skips or repeats is read with the offset from before the
  change.
\<close>

definition runtime_UTC_minus_5 :: "int \<Rightarrow> runtime" where
  "runtime_UTC_minus_5 clock =
     \<lparr>Date_parse = Date_parse_ISO, LocalTZA = (\<lambda>t isUTC. - 18000000), now = clock\<rparr>"

definition LocalTZA_New_York_2024 :: "int \<Rightarrow> bool \<Rightarrow> int" where
  "LocalTZA_New_York_2024 t isUTC =
     (let dst_start = 1710054000000; dst_end = 1730613600000;
          est = - 18000000; edt = - 14400000
      in if isUTC then (if dst_start \<le> t \<and> t < dst_end then edt else est)
         else (if dst_start + edt \<le> t \<and> t < dst_end + edt then edt else est))"

definition runtime_New_York_2024 :: "int \<Rightarrow> runtime" where
  "runtime_New_York_2024 clock =
     \<lparr>Date_parse = Date_parse_ISO, LocalTZA = LocalTZA_New_York_2024, now = clock\<rparr>"

section \<open>Rows and the Row Normalizer\<close>

text \<open>
  A parsed row is an object from column names to strings; reading a column the row
  does not have gives \<open>undefined\<close> (\<open>None\<close>).
\<close>

type_synonym row = "string \<Rightarrow> string option"

text \<open>Truthiness of a string or \<open>undefined\<close>: the empty string and \<open>undefined\<close> are
  falsy.\<close>

definition truthy :: "string option \<Rightarrow> bool" where
  "truthy v = (case v of None \<Rightarrow> False | Some s \<Rightarrow> s \<noteq> [])"

text \<open>The \<open>complete\<close> callback of \<open>handleFileUpload\<close>:
  \<open>setCsvData(results.data.filter(row => row['Date']))\<close>.\<close>

definition handleFileUpload :: "row list \<Rightarrow> row list" where
  "handleFileUpload results_data = filter (\<lambda>row. truthy (row ''Date'')) results_data"

definition INTERNAL_CLIENTS :: "string list" where
  "INTERNAL_CLIENTS = [''Onica'', ''Rackspace Innovation In Action'']"

definition Array_includes :: "string list \<Rightarrow> string option \<Rightarrow> bool" where
  "Array_includes xs v = (case v of None \<Rightarrow> False | Some s \<Rightarrow> s \<in> set xs)"

text \<open>
  A processed row: the columns of the raw row (\<open>...row\<close>) and the four computed
  properties, which replace columns of the same names.
\<close>

record entry =
  columns :: row
  Full_Name :: string
  Date :: "int option"
  Hours :: number
  Is_Internal :: bool

definition process_row :: "runtime \<Rightarrow> row \<Rightarrow> entry" where
  "process_row rt row =
     \<lparr>columns = row,
      Full_Name = ToString (row ''First Name'') @ '' '' @ ToString (row ''Last Name''),
      Date = new_Date rt (row ''Date''),
      Hours = or_zero (parseFloat (row ''Hours'')),
      Is_Internal = Array_includes INTERNAL_CLIENTS (row ''Client'')\<rparr>"

definition processedData :: "runtime \<Rightarrow> row list \<Rightarrow> entry list" where
  "processedData rt csvData = map (process_row rt) csvData"

section \<open>Arrays in a store, and sorting\<close>

text \<open>
  \<open>Array.prototype.sort\<close> sorts the array it is called on, in place, and
  \<open>filter\<close> returns a new array. Which array a variable refers to therefore matters:
  arrays live in a store, at references.
\<close>

record 'a store =
  cells :: "nat \<Rightarrow> 'a list option"
  next_ref :: nat

definition contents :: "'a store \<Rightarrow> nat \<Rightarrow> 'a list" where
  "contents st a = (case cells st a of None \<Rightarrow> [] | Some xs \<Rightarrow> xs)"

definition new_Array :: "'a list \<Rightarrow> 'a store \<Rightarrow> nat \<times> 'a store" where
  "new_Array xs st = (next_ref st, st\<lparr>cells := (cells st)(next_ref st \<mapsto> xs), next_ref := next_ref st + 1\<rparr>)"

definition Array_filter :: "('a \<Rightarrow> bool) \<Rightarrow> nat \<Rightarrow> 'a store \<Rightarrow> nat \<times> 'a store" where
  "Array_filter p a st = new_Array (filter p (contents st a)) st"

text \<open>
  The comparator's result decides the order: \<open>NaN\<close> counts as \<open>0\<close>, a positive result
  puts the second argument first. The sort is stable; for a consistent comparator its
  result is the one of this insertion sort (for an inconsistent one the language leaves
  the order to the implementation).
\<close>

definition SortCompare :: "('a \<Rightarrow> 'a \<Rightarrow> number) \<Rightarrow> 'a \<Rightarrow> 'a \<Rightarrow> number" where
  "SortCompare comparefn x y = (let v = comparefn x y in if v = NaN then Fin 0 else v)"

fun insert_sorted :: "('a \<Rightarrow> 'a \<Rightarrow> number) \<Rightarrow> 'a \<Rightarrow> 'a list \<Rightarrow> 'a list" where
  "insert_sorted comparefn x [] = [x]"
| "insert_sorted comparefn x (y # ys) =
     (if js_gt (SortCompare comparefn x y) (Fin 0) then y # insert_sorted comparefn x ys
      else x # y # ys)"

definition sorted_by :: "('a \<Rightarrow> 'a \<Rightarrow> number) \<Rightarrow> 'a list \<Rightarrow> 'a list" where
  "sorted_by comparefn xs = foldr (insert_sorted comparefn) xs []"

definition Array_sort :: "('a \<Rightarrow> 'a \<Rightarrow> number) \<Rightarrow> nat \<Rightarrow> 'a store \<Rightarrow> nat \<times> 'a store" where
  "Array_sort comparefn a st =
     (a, st\<lparr>cells := (cells st)(a \<mapsto> sorted_by comparefn (contents st a))\<rparr>)"

section \<open>Filter criteria and the Filter Pipeline\<close>

text \<open>The values of the date-range select: \<open>all\<close>, \<open>week\<close>, \<open>month\<close>,
  \<open>quarter\<close>, \<open>year\<close>.\<close>

datatype date_range = range_all | range_week | range_month | range_quarter | range_year

record criteria =
  selectedEmployee :: string
  selectedClient :: string
  selectedProject :: string
  selectedTask :: string
  selectedDateRange :: date_range

definition ranges :: "date_range \<Rightarrow> real option" where
  "ranges r = (case r of range_all \<Rightarrow> None | range_week \<Rightarrow> Some 7 | range_month \<Rightarrow> Some 30
               | range_quarter \<Rightarrow> Some 90 | range_year \<Rightarrow> Some 365)"

text \<open>The number a \<open>Date\<close> converts to in a subtraction.\<close>

definition valueOf :: "int option \<Rightarrow> number" where
  "valueOf d = (case d of None \<Rightarrow> NaN | Some t \<Rightarrow> Fin (real_of_int t))"

fun Math_abs :: "number \<Rightarrow> number" where
  "Math_abs NaN = NaN"
| "Math_abs (Fin x) = Fin \<bar>x\<bar>"
| "Math_abs _ = PosInf"

text \<open>\<open>Math.round\<close> rounds to the nearest integer, a half towards \<open>+\<infinity>\<close>.\<close>

fun Math_round :: "number \<Rightarrow> number" where
  "Math_round (Fin x) = Fin (of_int \<lfloor>x + 1 / 2\<rfloor>)"
| "Math_round v = v"

definition differenceInDays :: "int option \<Rightarrow> int option \<Rightarrow> number" where
  "differenceInDays date1 date2 =
     (let oneDay = 24 * 60 * 60 * 1000
      in Math_round (Math_abs (js_div (js_sub (valueOf date1) (valueOf date2)) (Fin oneDay))))"

text \<open>The predicate of the date filter, with \<open>now = new Date()\<close>.\<close>

definition date_test :: "runtime \<Rightarrow> real \<Rightarrow> entry \<Rightarrow> bool" where
  "date_test rt daysBack row =
     (let daysDiff = differenceInDays (Some (now rt)) (Date row)
      in js_le daysDiff (Fin daysBack) \<and> js_ge daysDiff (Fin 0))"

text \<open>\<open>if (cond) { filtered = filtered.filter(p) }\<close>\<close>

definition filter_if :: "bool \<Rightarrow> ('a \<Rightarrow> bool) \<Rightarrow> nat \<times> 'a store \<Rightarrow> nat \<times> 'a store" where
  "filter_if cond p s = (if cond then Array_filter p (fst s) (snd s) else s)"

text \<open>
  \<open>filteredData\<close>: \<open>processedData_ref\<close> is the reference of the array
  \<open>processedData\<close>. The variable \<open>filtered\<close> starts as that same reference and is
  assigned a new array at every filter that applies; the final \<open>sort\<close> works on
  whatever it refers to. A state \<open>s\<close> is the variable \<open>filtered\<close> and the store.
\<close>

definition filteredData ::
  "runtime \<Rightarrow> criteria \<Rightarrow> nat \<Rightarrow> entry store \<Rightarrow> nat \<times> entry store" where
  "filteredData rt c processedData_ref st =
     (let s = (processedData_ref, st);
          s = filter_if (selectedEmployee c \<noteq> ''all'')
                (\<lambda>row. Full_Name row = selectedEmployee c) s;
          s = filter_if (selectedClient c \<noteq> ''all'')
                (\<lambda>row. columns row ''Client'' = Some (selectedClient c)) s;
          s = filter_if (selectedProject c \<noteq> ''all'')
                (\<lambda>row. columns row ''Project'' = Some (selectedProject c)) s;
          s = filter_if (selectedTask c \<noteq> ''all'')
                (\<lambda>row. columns row ''Task'' = Some (selectedTask c)) s;
          s = (if selectedDateRange c \<noteq> range_all
               then (case ranges (selectedDateRange c) of
                       Some daysBack \<Rightarrow> Array_filter (date_test rt daysBack) (fst s) (snd s)
                     | None \<Rightarrow> s)
               else s)
      in Array_sort (\<lambda>a b. js_sub (valueOf (Date b)) (valueOf (Date a))) (fst s) (snd s))"

text \<open>The entries \<open>filteredData\<close> returns for given processed rows: the contents of
  the array it returns, when run on a store that holds the processed rows.\<close>

definition store_of :: "'a list \<Rightarrow> 'a store" where
  "store_of xs = \<lparr>cells = [0 \<mapsto> xs], next_ref = 1\<rparr>"

definition filtered_entries :: "runtime \<Rightarrow> criteria \<Rightarrow> entry list \<Rightarrow> entry list" where
  "filtered_entries rt c xs = (let (a, st) = filteredData rt c 0 (store_of xs) in contents st a)"

definition internalData :: "entry list \<Rightarrow> entry list" where
  "internalData filtered = filter Is_Internal filtered"

text \<open>
  The filter as the specification words it: the entry passes every selection that is
  not \<open>all\<close>, and \<open>daysDiff = round(|now - date| / 1 day)\<close> lies between \<open>0\<close> and the
  days of the preset.
\<close>

definition passes_selects :: "criteria \<Rightarrow> entry \<Rightarrow> bool" where
  "passes_selects c e \<longleftrightarrow>
     (selectedEmployee c = ''all'' \<or> Full_Name e = selectedEmployee c)
   \<and> (selectedClient c = ''all'' \<or> columns e ''Client'' = Some (selectedClient c))
   \<and> (selectedProject c = ''all'' \<or> columns e ''Project'' = Some (selectedProject c))
   \<and> (selectedTask c = ''all'' \<or> columns e ''Task'' = Some (selectedTask c))"

definition daysDiff :: "int \<Rightarrow> int \<Rightarrow> int" where
  "daysDiff now_t t = round (\<bar>real_of_int (now_t - t)\<bar> / real_of_int msPerDay)"

definition in_date_range :: "runtime \<Rightarrow> date_range \<Rightarrow> entry \<Rightarrow> bool" where
  "in_date_range rt r e \<longleftrightarrow>
     (\<exists>t d. Date e = Some t \<and> ranges r = Some d \<and> 0 \<le> daysDiff (now rt) t
            \<and> real_of_int (daysDiff (now rt) t) \<le> d)"

text \<open>A state of the pipeline as \<open>processedData\<close> sees it: its cell is as at the
  start, and \<open>filtered\<close> is another array as soon as a filter has applied (\<open>b\<close>).\<close>

definition frame_inv :: "nat \<Rightarrow> 'a store \<Rightarrow> bool \<Rightarrow> nat \<times> 'a store \<Rightarrow> bool" where
  "frame_inv a st b s \<longleftrightarrow>
     a < next_ref (snd s) \<and> cells (snd s) a = cells st a \<and> (if b then fst s \<noteq> a else s = (a, st))"

text \<open>The handlers of the five selects. React applies the state updates of one event
  handler together, so each handler is one step on the criteria.\<close>

datatype event =
    Employee_onChange string
  | Client_onChange string
  | Project_onChange string
  | Task_onChange string
  | DateRange_onChange date_range

fun onChange :: "criteria \<Rightarrow> event \<Rightarrow> criteria" where
  "onChange c (Employee_onChange v) = c\<lparr>selectedEmployee := v\<rparr>"
| "onChange c (Client_onChange v) =
     c\<lparr>selectedClient := v, selectedProject := ''all'', selectedTask := ''all''\<rparr>"
| "onChange c (Project_onChange v) = c\<lparr>selectedProject := v, selectedTask := ''all''\<rparr>"
| "onChange c (Task_onChange v) = c\<lparr>selectedTask := v\<rparr>"
| "onChange c (DateRange_onChange v) = c\<lparr>selectedDateRange := v\<rparr>"

definition initial_criteria :: criteria where
  "initial_criteria = \<lparr>selectedEmployee = ''all'', selectedClient = ''all'',
     selectedProject = ''all'', selectedTask = ''all'', selectedDateRange = range_all\<rparr>"

section \<open>Weekly utilization records, alerts and shoutouts\<close>

text \<open>The \<open>stats\<close> object kept per employee and week (\<open>days\<close> is a \<open>Set\<close> of
  date strings, kept in insertion order).\<close>

record stats =
  hours :: number
  billableHours :: number
  internalHours :: number
  externalHours :: number
  days :: "string list"

text \<open>A \<open>Map\<close> keeps its keys distinct and in insertion order: an association list,
  read with \<open>map_of\<close> and written with \<open>AList.update\<close>.\<close>

type_synonym employeeMap = "(string \<times> stats) list"
type_synonym weekMap = "(string \<times> employeeMap) list"

datatype alert = Low | High

text \<open>The component \<open>UtilizationAlert\<close>: \<open>null\<close> when the hours are neither low
  nor high, else the alert it renders (\<open>isLow ? 'Low' : 'High'\<close>).\<close>

definition UtilizationAlert :: "number \<Rightarrow> alert option" where
  "UtilizationAlert h =
     (let isLow = js_lt h (Fin 30); isHigh = js_gt h (Fin 45)
      in if \<not> isLow \<and> \<not> isHigh then None else Some (if isLow then Low else High))"

text \<open>The Utilization tab: for every week and every employee of the week, the alert
  element when \<open>stats.hours < 30 || stats.hours > 45\<close>, else \<open>null\<close>. An element
  is modelled by its key (week, employee) and what the component renders.\<close>

definition alert_of :: "stats \<Rightarrow> alert option" where
  "alert_of st =
     (if js_lt (hours st) (Fin 30) \<or> js_gt (hours st) (Fin 45)
      then UtilizationAlert (hours st) else None)"

definition Utilization_Alerts :: "weekMap \<Rightarrow> (string \<times> string \<times> alert) option list list" where
  "Utilization_Alerts weeklyUtilization =
     map (\<lambda>(weekStart, employeeMap).
            map (\<lambda>(employee, st). map_option (\<lambda>a. (weekStart, employee, a)) (alert_of st))
                employeeMap)
         weeklyUtilization"

text \<open>The condition of a shoutout:
  \<open>stats.billableHours / stats.hours > 0.9 && stats.hours >= 35\<close>.\<close>

definition shoutout_cond :: "stats \<Rightarrow> bool" where
  "shoutout_cond st =
     (js_gt (js_div (billableHours st) (hours st)) (Fin (9 / 10)) \<and> js_ge (hours st) (Fin 35))"

text \<open>Recent Shoutouts: the first three weeks of \<open>weeklyUtilization\<close>
  (\<open>slice(0, 3)\<close>), every employee of each; an element is modelled by its key.\<close>

definition Recent_Shoutouts :: "weekMap \<Rightarrow> (string \<times> string) option list list" where
  "Recent_Shoutouts weeklyUtilization =
     map (\<lambda>(weekStart, employeeMap).
            map (\<lambda>(employee, st). if shoutout_cond st then Some (weekStart, employee) else None)
                employeeMap)
         (take 3 weeklyUtilization)"

section \<open>The Weekly Utilization Aggregator\<close>

text \<open>\<open>Set.add\<close> on a set kept in insertion order.\<close>

definition Set_add :: "'a \<Rightarrow> 'a list \<Rightarrow> 'a list" where
  "Set_add x xs = (if x \<in> set xs then xs else xs @ [x])"

definition new_stats :: stats where
  "new_stats = \<lparr>hours = Fin 0, billableHours = Fin 0, internalHours = Fin 0,
     externalHours = Fin 0, days = []\<rparr>"

text \<open>The body of the \<open>forEach\<close> of \<open>weeklyUtilization\<close>, for one row.\<close>

definition add_week_row :: "runtime \<Rightarrow> weekMap \<Rightarrow> entry \<Rightarrow> weekMap" where
  "add_week_row rt weekMap row =
     (let weekStart = startOfWeek rt (Date row);
          weekKey = formatDate_yyyy_MM_dd rt weekStart;
          employee = Full_Name row;
          employeeMap = (case map_of weekMap weekKey of None \<Rightarrow> [] | Some m \<Rightarrow> m);
          st0 = (case map_of employeeMap employee of None \<Rightarrow> new_stats | Some st \<Rightarrow> st);
          st1 = st0\<lparr>hours := js_add (hours st0) (Hours row)\<rparr>;
          st2 = (if columns row ''Billable?'' = Some ''Yes''
                 then st1\<lparr>billableHours := js_add (billableHours st1) (Hours row)\<rparr> else st1);
          st3 = (if Is_Internal row
                 then st2\<lparr>internalHours := js_add (internalHours st2) (Hours row)\<rparr>
                 else st2\<lparr>externalHours := js_add (externalHours st2) (Hours row)\<rparr>);
          st4 = st3\<lparr>days := Set_add (formatDate_yyyy_MM_dd rt (Date row)) (days st3)\<rparr>
      in AList.update weekKey (AList.update employee st4 employeeMap) weekMap)"

text \<open>The weeks are sorted by \<open>new Date(b) - new Date(a)\<close> on their keys.\<close>

definition week_compare :: "runtime \<Rightarrow> string \<times> employeeMap \<Rightarrow> string \<times> employeeMap \<Rightarrow> number" where
  "week_compare rt x y =
     js_sub (valueOf (new_Date rt (Some (fst y)))) (valueOf (new_Date rt (Some (fst x))))"

definition weeklyUtilization :: "runtime \<Rightarrow> entry list \<Rightarrow> weekMap" where
  "weeklyUtilization rt filtered =
     sorted_by (week_compare rt) (foldl (add_week_row rt) [] filtered)"

text \<open>The number the sort of the weeks compares: \<open>new Date(weekKey)\<close> as a number.\<close>

definition week_value :: "runtime \<Rightarrow> string \<Rightarrow> number" where
  "week_value rt weekKey = valueOf (new_Date rt (Some weekKey))"

text \<open>
  The week start as the specification words it: how many days a date of the given
  weekday (\<open>0\<close> is Sunday, \<open>1\<close> is Monday) lies after the Monday of its week.
\<close>

definition days_since_monday :: "int \<Rightarrow> int" where
  "days_since_monday weekday = (if weekday = 0 then 6 else weekday - 1)"

text \<open>The key of the week a row is added to, and: the week map has a record for an
  employee under a key.\<close>

definition weekKey_of :: "runtime \<Rightarrow> entry \<Rightarrow> string" where
  "weekKey_of rt row = formatDate_yyyy_MM_dd rt (startOfWeek rt (Date row))"

definition has_record :: "weekMap \<Rightarrow> string \<Rightarrow> string \<Rightarrow> bool" where
  "has_record weekMap weekKey employee \<longleftrightarrow>
     (\<exists>m st. map_of weekMap weekKey = Some m \<and> map_of m employee = Some st)"

text \<open>The week map has, under a key and for an employee, a record whose set of days
  holds a given day; and the hours of the record under a key and for an employee (zero
  when there is none).\<close>

definition has_day :: "weekMap \<Rightarrow> string \<Rightarrow> string \<Rightarrow> string \<Rightarrow> bool" where
  "has_day weekMap weekKey employee day \<longleftrightarrow>
     (\<exists>m st. map_of weekMap weekKey = Some m \<and> map_of m employee = Some st \<and> day \<in> set (days st))"

definition hours_of :: "weekMap \<Rightarrow> string \<Rightarrow> string \<Rightarrow> number" where
  "hours_of weekMap weekKey employee =
     (case map_of weekMap weekKey of
        None \<Rightarrow> Fin 0
      | Some m \<Rightarrow> (case map_of m employee of None \<Rightarrow> Fin 0 | Some st \<Rightarrow> hours st))"

text \<open>
  The week of a date as the specification words it, on a local time: the Monday at or
  before it, at the same time of day; and the form \<open>yyyy-MM-dd\<close> of the calendar day
  of a local time.
\<close>

definition local_monday :: "int \<Rightarrow> int" where
  "local_monday local_t = local_t - days_since_monday (WeekDay local_t) * msPerDay"

definition yyyy_MM_dd :: "int \<Rightarrow> string" where
  "yyyy_MM_dd local_t =
     String_int (YearFromTime local_t) @ ''-''
     @ padStart2 (String_int (MonthFromTime local_t + 1)) @ ''-''
     @ padStart2 (String_int (DateFromTime local_t))"

text \<open>
  An entry is counted under a week key: the key is the one the aggregator computes for
  the entry, and the weekly utilization sequence has, under that key, a record of the
  entry's employee whose days include the day of the entry.
\<close>

definition counted_under :: "runtime \<Rightarrow> entry list \<Rightarrow> entry \<Rightarrow> string \<Rightarrow> bool" where
  "counted_under rt filtered e weekKey \<longleftrightarrow>
     weekKey_of rt e = weekKey
     \<and> (\<exists>(k, m) \<in> set (weeklyUtilization rt filtered). k = weekKey
          \<and> (\<exists>(n, st) \<in> set m. n = Full_Name e
               \<and> formatDate_yyyy_MM_dd rt (Date e) \<in> set (days st)))"

section \<open>The Hierarchical Rollup Builder\<close>

text \<open>
  The breakdown is built from object literals \<open>{}\<close>, read with \<open>obj[key]\<close>. Such a
  read finds the object's own property, or else a property inherited from
  \<open>Object.prototype\<close>, or else \<open>undefined\<close>. The inherited properties are the
  built-in functions of every object and \<open>__proto__\<close>; all of them are truthy.
\<close>

definition Object_prototype_keys :: "string list" where
  "Object_prototype_keys =
     [''constructor'', ''__proto__'', ''hasOwnProperty'', ''isPrototypeOf'',
      ''propertyIsEnumerable'', ''toLocaleString'', ''toString'', ''valueOf'',
      ''__defineGetter__'', ''__defineSetter__'', ''__lookupGetter__'', ''__lookupSetter__'']"

datatype 'v property = Own 'v | Inherited | Undefined

definition get_property :: "(string \<times> 'v) list \<Rightarrow> string \<Rightarrow> 'v property" where
  "get_property obj k =
     (case map_of obj k of
        Some v \<Rightarrow> Own v
      | None \<Rightarrow> if k \<in> set Object_prototype_keys then Inherited else Undefined)"

record leaf =
  leaf_hours :: number
  leaf_billableHours :: number
  entries :: "entry list"

type_synonym tasks = "(string \<times> leaf) list"
type_synonym projects = "(string \<times> tasks) list"
type_synonym breakdown = "(string \<times> projects) list"

text \<open>
  Where a key resolves to an inherited property, the truthiness test finds it, no
  object is created in the tree, and the code goes on with the built-in object: the row
  leaves the tree (its leaf is made on the built-in, or a \<open>TypeError\<close> is raised).
  The model stops there with the key.
\<close>

datatype rollup_error = Leaves_tree string

definition or_string :: "string option \<Rightarrow> string \<Rightarrow> string" where
  "or_string v d = (if truthy v then ToString v else d)"

definition new_leaf :: leaf where
  "new_leaf = \<lparr>leaf_hours = Fin 0, leaf_billableHours = Fin 0, entries = []\<rparr>"

definition add_to_leaf :: "leaf \<Rightarrow> entry \<Rightarrow> leaf" where
  "add_to_leaf l0 row =
     (let l1 = l0\<lparr>leaf_hours := js_add (leaf_hours l0) (Hours row)\<rparr>;
          l2 = (if columns row ''Billable?'' = Some ''Yes''
                then l1\<lparr>leaf_billableHours := js_add (leaf_billableHours l1) (Hours row)\<rparr>
                else l1)
      in l2\<lparr>entries := entries l2 @ [row]\<rparr>)"

definition add_breakdown_row :: "breakdown \<Rightarrow> entry \<Rightarrow> rollup_error + breakdown" where
  "add_breakdown_row breakdown row =
     (let client = ToString (columns row ''Client'');
          project = or_string (columns row ''Project'') ''No Project'';
          task = or_string (columns row ''Task'') ''No Task''
      in case get_property breakdown client of
           Inherited \<Rightarrow> Inl (Leaves_tree client)
         | pc \<Rightarrow>
             (let ps = (case pc of Own ps \<Rightarrow> ps | _ \<Rightarrow> [])
              in case get_property ps project of
                   Inherited \<Rightarrow> Inl (Leaves_tree project)
                 | pp \<Rightarrow>
                     (let ts = (case pp of Own ts \<Rightarrow> ts | _ \<Rightarrow> [])
                      in case get_property ts task of
                           Inherited \<Rightarrow> Inl (Leaves_tree task)
                         | pt \<Rightarrow>
                             (let l0 = (case pt of Own l \<Rightarrow> l | _ \<Rightarrow> new_leaf)
                              in Inr (AList.update client
                                       (AList.update project
                                          (AList.update task (add_to_leaf l0 row) ts) ps)
                                       breakdown)))))"

fun breakdown_rows :: "breakdown \<Rightarrow> entry list \<Rightarrow> rollup_error + breakdown" where
  "breakdown_rows breakdown [] = Inr breakdown"
| "breakdown_rows breakdown (row # rows) =
     (case add_breakdown_row breakdown row of
        Inl e \<Rightarrow> Inl e
      | Inr breakdown' \<Rightarrow> breakdown_rows breakdown' rows)"

definition internalBreakdown :: "entry list \<Rightarrow> rollup_error + breakdown" where
  "internalBreakdown internal = breakdown_rows [] internal"

text \<open>The leaves of a breakdown, and the sum of a list of numbers as \<open>reduce\<close> with
  \<open>+\<close> from \<open>0\<close> computes it.\<close>

definition leaves :: "breakdown \<Rightarrow> leaf list" where
  "leaves breakdown = concat (map (\<lambda>(client, ps). concat (map (\<lambda>(project, ts). map snd ts) ps)) breakdown)"

definition js_sum :: "number list \<Rightarrow> number" where
  "js_sum xs = foldl js_add (Fin 0) xs"

text \<open>The own property of an object under a key, or a default.\<close>

definition own_or :: "'v \<Rightarrow> (string \<times> 'v) list \<Rightarrow> string \<Rightarrow> 'v" where
  "own_or dflt obj k = (case map_of obj k of None \<Rightarrow> dflt | Some v \<Rightarrow> v)"

section \<open>Example data\<close>

text \<open>Four rows of one employee, one in each of four consecutive weeks.\<close>

definition four_weeks :: "row list" where
  "four_weeks =
     [[''Date'' \<mapsto> ''2024-01-03'', ''Hours'' \<mapsto> ''40'', ''Billable?'' \<mapsto> ''Yes'',
       ''First Name'' \<mapsto> ''Ann'', ''Last Name'' \<mapsto> ''Lee''],
      [''Date'' \<mapsto> ''2024-01-10'', ''Hours'' \<mapsto> ''40'', ''Billable?'' \<mapsto> ''Yes'',
       ''First Name'' \<mapsto> ''Ann'', ''Last Name'' \<mapsto> ''Lee''],
      [''Date'' \<mapsto> ''2024-01-17'', ''Hours'' \<mapsto> ''20'', ''Billable?'' \<mapsto> ''Yes'',
       ''First Name'' \<mapsto> ''Ann'', ''Last Name'' \<mapsto> ''Lee''],
      [''Date'' \<mapsto> ''2024-01-24'', ''Hours'' \<mapsto> ''40'', ''Billable?'' \<mapsto> ''Yes'',
       ''First Name'' \<mapsto> ''Ann'', ''Last Name'' \<mapsto> ''Lee'']]"

definition four_weeks_filtered :: "entry list" where
  "four_weeks_filtered =
     filtered_entries (runtime_UTC 0) initial_criteria
       (processedData (runtime_UTC 0) (handleFileUpload four_weeks))"

text \<open>A billable row of the employee Ann Lee, with a date and hours.\<close>

definition ann_lee :: "string \<Rightarrow> string \<Rightarrow> row" where
  "ann_lee date_s hours_s =
     [''Date'' \<mapsto> date_s, ''Hours'' \<mapsto> hours_s, ''Billable?'' \<mapsto> ''Yes'',
      ''First Name'' \<mapsto> ''Ann'', ''Last Name'' \<mapsto> ''Lee'']"

section \<open>Alert thresholds\<close>

text \<open>
  C3. A weekly record is a low-utilization alert iff its hours are strictly below 30 and
  a high-utilization alert iff they are strictly above 45; it is never both; exactly 30
  hours is no low alert and exactly 45 hours is no high alert.
\<close>

theorem alert_thresholds:
  "alert_of (st\<lparr>hours := Fin h\<rparr>) = (if h < 30 then Some Low else if 45 < h then Some High else None)
   \<and> (alert_of st = Some Low \<longleftrightarrow> js_lt (hours st) (Fin 30))
   \<and> (alert_of st = Some High \<longleftrightarrow> js_gt (hours st) (Fin 45))
   \<and> \<not> (js_lt (hours st) (Fin 30) \<and> js_gt (hours st) (Fin 45))
   \<and> alert_of (st\<lparr>hours := Fin 30\<rparr>) \<noteq> Some Low
   \<and> alert_of (st\<lparr>hours := Fin 45\<rparr>) \<noteq> Some High"
proof -
  have both: "\<not> (js_lt x (Fin 30) \<and> js_gt x (Fin 45))" for x
    by (cases x) (simp_all add: js_gt_def)
  have low: "alert_of st = Some Low \<longleftrightarrow> js_lt (hours st) (Fin 30)"
    by (simp add: alert_of_def UtilizationAlert_def Let_def)
  have high: "alert_of st = Some High \<longleftrightarrow> js_gt (hours st) (Fin 45)"
    using both [of "hours st"] by (auto simp add: alert_of_def UtilizationAlert_def Let_def)
  have fin: "alert_of (st\<lparr>hours := Fin x\<rparr>)
      = (if x < 30 then Some Low else if 45 < x then Some High else None)" for x
    by (simp add: alert_of_def UtilizationAlert_def Let_def js_gt_def)
  show ?thesis
    using low high both [of "hours st"] fin [of h] fin [of 30] fin [of 45] by simp
qed

theorem alert_thresholds_witness:
  "alert_of \<lparr>hours = Fin 29, billableHours = Fin 0, internalHours = Fin 0,
       externalHours = Fin 29, days = []\<rparr> = Some Low
   \<and> alert_of \<lparr>hours = Fin 30, billableHours = Fin 0, internalHours = Fin 0,
       externalHours = Fin 30, days = []\<rparr> = None
   \<and> alert_of \<lparr>hours = Fin 45, billableHours = Fin 0, internalHours = Fin 0,
       externalHours = Fin 45, days = []\<rparr> = None"
  using alert_thresholds [where h = 29 and st = "\<lparr>hours = Fin 0, billableHours = Fin 0,
       internalHours = Fin 0, externalHours = Fin 29, days = []\<rparr>"]
    alert_thresholds [where h = 30 and st = "\<lparr>hours = Fin 0, billableHours = Fin 0,
       internalHours = Fin 0, externalHours = Fin 30, days = []\<rparr>"]
    alert_thresholds [where h = 45 and st = "\<lparr>hours = Fin 0, billableHours = Fin 0,
       internalHours = Fin 0, externalHours = Fin 45, days = []\<rparr>"]
  by simp

section \<open>Recognition thresholds\<close>



section \<open>The Row Normalizer\<close>

text \<open>
  C1, as stated, fails: a row whose date string is not empty but does not parse is kept,
  and its entry has an invalid date.
\<close>

theorem normalizer_keeps_unparsable_date:
  "map Date (processedData (runtime_UTC 0)
      (handleFileUpload [[''Date'' \<mapsto> ''n/a'', ''Hours'' \<mapsto> ''8'']])) = [None]"
  by (simp add: processedData_def handleFileUpload_def truthy_def process_row_def new_Date_def
      runtime_UTC_def Date_parse_ISO_def)

text \<open>
  C1, amended. The Row Normalizer drops exactly the rows whose date field is missing or
  the empty string and keeps every other row, in order; the date of an entry is what the
  runtime's parser makes of its non-empty date string (an invalid date when the string
  does not parse).
\<close>

theorem normalizer_drops_empty_dates:
  "map columns (processedData rt (handleFileUpload rows))
     = filter (\<lambda>row. row ''Date'' \<noteq> None \<and> row ''Date'' \<noteq> Some '''') rows
   \<and> (\<forall>e \<in> set (processedData rt (handleFileUpload rows)).
         \<exists>s. columns e ''Date'' = Some s \<and> s \<noteq> '''' \<and> Date e = Option.bind (Date_parse rt s) TimeClip)"
proof -
  have t: "truthy v \<longleftrightarrow> v \<noteq> None \<and> v \<noteq> Some ''''" for v
    by (cases v) (simp_all add: truthy_def)
  have c: "map columns (processedData rt xs) = xs" for xs
    by (induction xs) (simp_all add: processedData_def process_row_def)
  show ?thesis
    unfolding c t [symmetric]
    by (auto simp add: processedData_def handleFileUpload_def t process_row_def new_Date_def
        split: option.splits)
qed

theorem normalizer_drops_empty_dates_witness:
  "map (\<lambda>e. columns e ''Date'') (processedData (runtime_UTC 0)
      (handleFileUpload [[''Date'' \<mapsto> ''2024-01-17''], [''Date'' \<mapsto> ''''], Map.empty, [''Date'' \<mapsto> ''n/a'']]))
    = [Some ''2024-01-17'', Some ''n/a'']
   \<and> map Date (processedData (runtime_UTC 0)
      (handleFileUpload [[''Date'' \<mapsto> ''2024-01-17''], [''Date'' \<mapsto> ''''], Map.empty, [''Date'' \<mapsto> ''n/a'']]))
    = [Some 1705449600000, None]"
proof -
  let ?out = "processedData (runtime_UTC 0)
      (handleFileUpload [[''Date'' \<mapsto> ''2024-01-17''], [''Date'' \<mapsto> ''''], Map.empty, [''Date'' \<mapsto> ''n/a'']])"
  have "map columns ?out = [[''Date'' \<mapsto> ''2024-01-17''], [''Date'' \<mapsto> ''n/a'']]"
    using normalizer_drops_empty_dates [of "runtime_UTC 0"
      "[[''Date'' \<mapsto> ''2024-01-17''], [''Date'' \<mapsto> ''''], Map.empty, [''Date'' \<mapsto> ''n/a'']]"]
    by simp
  then have "map (\<lambda>r. r ''Date'') (map columns ?out)
      = map (\<lambda>r. r ''Date'') [[''Date'' \<mapsto> ''2024-01-17''], [''Date'' \<mapsto> ''n/a'']]"
    by (rule arg_cong)
  moreover have "Date_parse_ISO ''2024-01-17'' = Some 1705449600000"
    by code_simp
  then have "map Date ?out = [Some 1705449600000, None]"
    by (simp add: processedData_def handleFileUpload_def truthy_def process_row_def new_Date_def
        runtime_UTC_def Date_parse_ISO_def [of "''n/a''"] TimeClip_def maxTime_def)
  ultimately show ?thesis by (simp add: comp_def)
qed

text \<open>
  C8, as stated, fails: the hours of a row whose \<open>Hours\<close> string is \<open>-5\<close> are \<open>-5\<close>.
\<close>

lemma parseFloat_minus_5: "parseFloat (Some ''-5'') = Fin (- 5)"
  by (simp add: parseFloat_def ToString_def is_space_def StrUnsignedDecimalLiteral_def
      is_digit_def digits_val_def digit_val_def scale10_def ExponentPart_def)

theorem hours_can_be_negative:
  "map Hours (processedData (runtime_UTC 0)
      (handleFileUpload [[''Date'' \<mapsto> ''2024-01-17'', ''Hours'' \<mapsto> ''-5'']])) = [Fin (- 5)]"
  using parseFloat_minus_5
  by (simp add: processedData_def handleFileUpload_def truthy_def process_row_def or_zero_def)

text \<open>
  C8, amended. The hours of an entry are the parsed value of the raw \<open>Hours\<close> string,
  and \<open>0\<close> when that string does not parse; they are never \<open>NaN\<close>. (They are negative
  when the string is a negative number.)
\<close>

theorem hours_parsed_or_zero:
  "Hours (process_row rt row)
     = (if parseFloat (row ''Hours'') = NaN then Fin 0 else parseFloat (row ''Hours''))
   \<and> Hours (process_row rt row) \<noteq> NaN
   \<and> map Hours (processedData rt rows) = map (\<lambda>row. or_zero (parseFloat (row ''Hours''))) rows"
  by (simp add: process_row_def or_zero_def processedData_def)

theorem hours_parsed_or_zero_witness:
  "Hours (process_row (runtime_UTC 0) [''Hours'' \<mapsto> ''-5'']) = Fin (- 5)
   \<and> Hours (process_row (runtime_UTC 0) [''Hours'' \<mapsto> ''n/a'']) = Fin 0"
proof -
  have "parseFloat (Some ''n/a'') = NaN"
    by (simp add: parseFloat_def ToString_def is_space_def StrUnsignedDecimalLiteral_def
        is_digit_def)
  then show ?thesis
    using parseFloat_minus_5
      hours_parsed_or_zero [of "runtime_UTC 0" "[''Hours'' \<mapsto> ''-5'']" "[]"]
      hours_parsed_or_zero [of "runtime_UTC 0" "[''Hours'' \<mapsto> ''n/a'']" "[]"]
    by simp
qed

section \<open>The filter cascade\<close>

text \<open>
  C6. Selecting a client sets the selected project and task to \<open>all\<close> in the same
  update, and selecting a project sets the selected task to \<open>all\<close> in the same update,
  after every sequence of updates; a client, then a project, then a task, then the client
  reset to \<open>all\<close> gives project and task both \<open>all\<close>.
\<close>

theorem filter_cascade:
  "onChange c (Client_onChange v)
     = c\<lparr>selectedClient := v, selectedProject := ''all'', selectedTask := ''all''\<rparr>
   \<and> onChange c (Project_onChange p) = c\<lparr>selectedProject := p, selectedTask := ''all''\<rparr>
   \<and> selectedClient (foldl onChange c (es @ [Client_onChange v])) = v
   \<and> selectedProject (foldl onChange c (es @ [Client_onChange v])) = ''all''
   \<and> selectedTask (foldl onChange c (es @ [Client_onChange v])) = ''all''
   \<and> selectedProject (foldl onChange c (es @ [Project_onChange p])) = p
   \<and> selectedTask (foldl onChange c (es @ [Project_onChange p])) = ''all''
   \<and> foldl onChange initial_criteria
        [Client_onChange x, Project_onChange p, Task_onChange t, Client_onChange ''all'']
      = initial_criteria"
  by (simp add: initial_criteria_def)

section \<open>The Filter Pipeline\<close>

lemma set_insert_sorted: "set (insert_sorted cmp x ys) = insert x (set ys)"
  by (induction ys) auto

lemma set_sorted_by: "set (sorted_by cmp xs) = set xs"
  by (induction xs) (simp_all add: sorted_by_def set_insert_sorted)

lemma differenceInDays_valid:
  "differenceInDays (Some n) (Some t) = Fin (real_of_int (daysDiff n t))"
  by (simp add: differenceInDays_def valueOf_def js_sub_def daysDiff_def round_def msPerDay_def)

lemma differenceInDays_invalid: "differenceInDays (Some n) None = NaN"
  by (simp add: differenceInDays_def valueOf_def js_sub_def)

lemma date_test_iff:
  "date_test rt d e \<longleftrightarrow>
     (\<exists>t. Date e = Some t \<and> 0 \<le> daysDiff (now rt) t \<and> real_of_int (daysDiff (now rt) t) \<le> d)"
  by (cases "Date e")
     (auto simp add: date_test_def differenceInDays_valid differenceInDays_invalid js_ge_def)

lemma ranges_preset: "r \<noteq> range_all \<Longrightarrow> ranges r \<in> {Some 7, Some 30, Some 90, Some 365}"
  by (cases r) (simp_all add: ranges_def)

text \<open>The pipeline as five conditional filters and the sort.\<close>

lemma filteredData_steps:
  "filteredData rt c a st =
     (let s = filter_if (selectedDateRange c \<noteq> range_all)
                (date_test rt (the (ranges (selectedDateRange c))))
             (filter_if (selectedTask c \<noteq> ''all'')
                (\<lambda>row. columns row ''Task'' = Some (selectedTask c))
             (filter_if (selectedProject c \<noteq> ''all'')
                (\<lambda>row. columns row ''Project'' = Some (selectedProject c))
             (filter_if (selectedClient c \<noteq> ''all'')
                (\<lambda>row. columns row ''Client'' = Some (selectedClient c))
             (filter_if (selectedEmployee c \<noteq> ''all'')
                (\<lambda>row. Full_Name row = selectedEmployee c) (a, st)))))
      in Array_sort (\<lambda>a b. js_sub (valueOf (Date b)) (valueOf (Date a))) (fst s) (snd s))"
proof (cases "selectedDateRange c = range_all")
  case True
  then show ?thesis
    by (simp add: filteredData_def Let_def filter_if_def [of False])
next
  case False
  with ranges_preset obtain d where "ranges (selectedDateRange c) = Some d" by auto
  with False show ?thesis
    by (simp add: filteredData_def Let_def filter_if_def [of True])
qed

lemma contents_new_Array:
  "contents (snd (new_Array xs st)) (fst (new_Array xs st)) = xs"
  by (simp add: new_Array_def contents_def)

lemma contents_filter_if:
  "contents (snd (filter_if b p s)) (fst (filter_if b p s))
     = filter (\<lambda>x. b \<longrightarrow> p x) (contents (snd s) (fst s))"
  by (simp add: filter_if_def Array_filter_def contents_new_Array)

lemma contents_Array_sort:
  "contents (snd (Array_sort cmp a st)) (fst (Array_sort cmp a st)) = sorted_by cmp (contents st a)"
  by (simp add: Array_sort_def contents_def)

lemma contents_store_of: "contents (store_of xs) 0 = xs"
  by (simp add: store_of_def contents_def)

lemma filtered_entries_eq:
  "filtered_entries rt c xs =
     sorted_by (\<lambda>a b. js_sub (valueOf (Date b)) (valueOf (Date a)))
       (filter (\<lambda>e. passes_selects c e
                  \<and> (selectedDateRange c \<noteq> range_all \<longrightarrow> in_date_range rt (selectedDateRange c) e)) xs)"
proof -
  let ?r = "selectedDateRange c"
  let ?p1 = "\<lambda>row. Full_Name row = selectedEmployee c"
  let ?p2 = "\<lambda>row. columns row ''Client'' = Some (selectedClient c)"
  let ?p3 = "\<lambda>row. columns row ''Project'' = Some (selectedProject c)"
  let ?p4 = "\<lambda>row. columns row ''Task'' = Some (selectedTask c)"
  let ?s0 = "(0 :: nat, store_of xs)"
  let ?s1 = "filter_if (selectedEmployee c \<noteq> ''all'') ?p1 ?s0"
  let ?s2 = "filter_if (selectedClient c \<noteq> ''all'') ?p2 ?s1"
  let ?s3 = "filter_if (selectedProject c \<noteq> ''all'') ?p3 ?s2"
  let ?s4 = "filter_if (selectedTask c \<noteq> ''all'') ?p4 ?s3"
  let ?s5 = "filter_if (?r \<noteq> range_all) (date_test rt (the (ranges ?r))) ?s4"
  let ?cmp = "\<lambda>a b. js_sub (valueOf (Date b)) (valueOf (Date a))"
  have dt: "in_date_range rt r e \<longleftrightarrow> date_test rt (the (ranges r)) e" if "r \<noteq> range_all" for r e
    using ranges_preset [OF that] by (auto simp add: in_date_range_def date_test_iff)
  have c1: "contents (snd ?s1) (fst ?s1) = filter (\<lambda>x. selectedEmployee c \<noteq> ''all'' \<longrightarrow> ?p1 x) xs"
    by (simp add: contents_filter_if contents_store_of)
  have c2: "contents (snd ?s2) (fst ?s2)
      = filter (\<lambda>x. selectedClient c \<noteq> ''all'' \<longrightarrow> ?p2 x) (contents (snd ?s1) (fst ?s1))"
    by (rule contents_filter_if)
  have c3: "contents (snd ?s3) (fst ?s3)
      = filter (\<lambda>x. selectedProject c \<noteq> ''all'' \<longrightarrow> ?p3 x) (contents (snd ?s2) (fst ?s2))"
    by (rule contents_filter_if)
  have c4: "contents (snd ?s4) (fst ?s4)
      = filter (\<lambda>x. selectedTask c \<noteq> ''all'' \<longrightarrow> ?p4 x) (contents (snd ?s3) (fst ?s3))"
    by (rule contents_filter_if)
  have c5: "contents (snd ?s5) (fst ?s5)
      = filter (\<lambda>x. ?r \<noteq> range_all \<longrightarrow> date_test rt (the (ranges ?r)) x) (contents (snd ?s4) (fst ?s4))"
    by (rule contents_filter_if)
  have "filtered_entries rt c xs = sorted_by ?cmp (contents (snd ?s5) (fst ?s5))"
    unfolding filtered_entries_def filteredData_steps
    by (simp only: split_beta Let_def contents_Array_sort)
  also have "contents (snd ?s5) (fst ?s5)
      = filter (\<lambda>e. passes_selects c e \<and> (?r \<noteq> range_all \<longrightarrow> in_date_range rt ?r e)) xs"
    unfolding c5 c4 c3 c2 c1 filter_filter
    by (rule filter_cong) (auto simp add: passes_selects_def dt)
  finally show ?thesis .
qed

lemma daysDiff_days_before: "0 \<le> k \<Longrightarrow> daysDiff n (n - k * msPerDay) = k"
  by (simp add: daysDiff_def msPerDay_def)

text \<open>
  C5. For every entry and every date-range preset other than \<open>all\<close>, the Filter
  Pipeline keeps the entry iff \<open>daysDiff = round(|now - entry.date| / 1 day)\<close> satisfies
  \<open>0 \<le> daysDiff \<le> presetDays\<close> (and the entry passes the other selections), with
  \<open>presetDays\<close> one of 7, 30, 90, 365; with the last-7-days preset an entry dated
  exactly 7 days before \<open>now\<close> is kept and one dated exactly 8 days before is not.
\<close>

theorem date_range_filter:
  "(selectedDateRange c \<noteq> range_all \<longrightarrow>
      (e \<in> set (filtered_entries rt c xs)
         \<longleftrightarrow> e \<in> set xs \<and> passes_selects c e \<and> in_date_range rt (selectedDateRange c) e))
   \<and> (selectedDateRange c \<noteq> range_all \<longrightarrow>
        ranges (selectedDateRange c) \<in> {Some 7, Some 30, Some 90, Some 365})
   \<and> (selectedDateRange c = range_week \<and> e \<in> set xs \<and> passes_selects c e
        \<and> Date e = Some (now rt - 7 * msPerDay) \<longrightarrow> e \<in> set (filtered_entries rt c xs))
   \<and> (selectedDateRange c = range_week \<and> Date e = Some (now rt - 8 * msPerDay)
        \<longrightarrow> e \<notin> set (filtered_entries rt c xs))"
proof -
  have kept: "e \<in> set (filtered_entries rt c xs)
         \<longleftrightarrow> e \<in> set xs \<and> passes_selects c e \<and> in_date_range rt (selectedDateRange c) e"
    if "selectedDateRange c \<noteq> range_all"
    using that by (auto simp add: filtered_entries_eq set_sorted_by)
  have seven: "in_date_range rt range_week e" if "Date e = Some (now rt - 7 * msPerDay)"
    using that daysDiff_days_before [of 7 "now rt"] by (simp add: in_date_range_def ranges_def)
  have eight: "\<not> in_date_range rt range_week e" if "Date e = Some (now rt - 8 * msPerDay)"
    using that daysDiff_days_before [of 8 "now rt"] by (simp add: in_date_range_def ranges_def)
  show ?thesis
    using kept ranges_preset [of "selectedDateRange c"] seven eight by auto
qed

lemma parse_2024_01_24: "Date_parse_ISO ''2024-01-24'' = Some 1706054400000"
  by code_simp

lemma parse_2024_01_25: "Date_parse_ISO ''2024-01-25'' = Some 1706140800000"
  by code_simp

theorem date_range_filter_witness:
  "process_row (runtime_UTC 1706745600000) [''Date'' \<mapsto> ''2024-01-25'']
     \<in> set (filtered_entries (runtime_UTC 1706745600000)
              (initial_criteria\<lparr>selectedDateRange := range_week\<rparr>)
              (processedData (runtime_UTC 1706745600000)
                 (handleFileUpload [[''Date'' \<mapsto> ''2024-01-25''], [''Date'' \<mapsto> ''2024-01-24'']])))
   \<and> process_row (runtime_UTC 1706745600000) [''Date'' \<mapsto> ''2024-01-24'']
     \<notin> set (filtered_entries (runtime_UTC 1706745600000)
              (initial_criteria\<lparr>selectedDateRange := range_week\<rparr>)
              (processedData (runtime_UTC 1706745600000)
                 (handleFileUpload [[''Date'' \<mapsto> ''2024-01-25''], [''Date'' \<mapsto> ''2024-01-24'']])))"
proof -
  let ?rt = "runtime_UTC 1706745600000"
  let ?c = "initial_criteria\<lparr>selectedDateRange := range_week\<rparr>"
  let ?xs = "processedData ?rt (handleFileUpload [[''Date'' \<mapsto> ''2024-01-25''], [''Date'' \<mapsto> ''2024-01-24'']])"
  have d7: "Date (process_row ?rt [''Date'' \<mapsto> ''2024-01-25'']) = Some (now ?rt - 7 * msPerDay)"
    using parse_2024_01_25
    by (simp add: process_row_def new_Date_def runtime_UTC_def TimeClip_def maxTime_def msPerDay_def)
  have d8: "Date (process_row ?rt [''Date'' \<mapsto> ''2024-01-24'']) = Some (now ?rt - 8 * msPerDay)"
    using parse_2024_01_24
    by (simp add: process_row_def new_Date_def runtime_UTC_def TimeClip_def maxTime_def msPerDay_def)
  have mem: "process_row ?rt [''Date'' \<mapsto> ''2024-01-25''] \<in> set ?xs"
    by (simp add: processedData_def handleFileUpload_def truthy_def)
  have sel: "passes_selects ?c e" for e
    by (simp add: passes_selects_def initial_criteria_def)
  have "selectedDateRange ?c = range_week \<and> process_row ?rt [''Date'' \<mapsto> ''2024-01-25''] \<in> set ?xs
      \<and> passes_selects ?c (process_row ?rt [''Date'' \<mapsto> ''2024-01-25''])
      \<and> Date (process_row ?rt [''Date'' \<mapsto> ''2024-01-25'']) = Some (now ?rt - 7 * msPerDay)"
    using d7 mem sel by simp
  with date_range_filter [of ?c "process_row ?rt [''Date'' \<mapsto> ''2024-01-25'']" ?rt ?xs]
  have A: "process_row ?rt [''Date'' \<mapsto> ''2024-01-25''] \<in> set (filtered_entries ?rt ?c ?xs)"
    by blast
  have "selectedDateRange ?c = range_week
      \<and> Date (process_row ?rt [''Date'' \<mapsto> ''2024-01-24'']) = Some (now ?rt - 8 * msPerDay)"
    using d8 by simp
  with date_range_filter [of ?c "process_row ?rt [''Date'' \<mapsto> ''2024-01-24'']" ?rt ?xs]
  have B: "process_row ?rt [''Date'' \<mapsto> ''2024-01-24''] \<notin> set (filtered_entries ?rt ?c ?xs)"
    by blast
  show ?thesis using A B by (rule conjI)
qed

section \<open>The frame of the Filter Pipeline\<close>

text \<open>With no selection, \<open>filtered\<close> is \<open>processedData\<close> itself when it is sorted.\<close>

lemma filteredData_no_selection:
  "filteredData rt initial_criteria a st
     = (a, st\<lparr>cells := (cells st)(a \<mapsto>
          sorted_by (\<lambda>a b. js_sub (valueOf (Date b)) (valueOf (Date a))) (contents st a))\<rparr>)"
  by (simp add: filteredData_def initial_criteria_def filter_if_def Array_sort_def)

lemma frame_inv_filter_if:
  "frame_inv a st b s \<Longrightarrow> frame_inv a st (b \<or> cond) (filter_if cond p s)"
  by (auto simp add: frame_inv_def filter_if_def Array_filter_def new_Array_def split: if_splits)

text \<open>With a selection, the array \<open>processedData\<close> is left as it was.\<close>

lemma filteredData_frame:
  assumes a: "a < next_ref st"
    and sel: "selectedEmployee c \<noteq> ''all'' \<or> selectedClient c \<noteq> ''all'' \<or> selectedProject c \<noteq> ''all''
       \<or> selectedTask c \<noteq> ''all'' \<or> selectedDateRange c \<noteq> range_all"
  shows "cells (snd (filteredData rt c a st)) a = cells st a \<and> fst (filteredData rt c a st) \<noteq> a"
proof -
  let ?s1 = "filter_if (selectedEmployee c \<noteq> ''all'') (\<lambda>row. Full_Name row = selectedEmployee c) (a, st)"
  let ?s2 = "filter_if (selectedClient c \<noteq> ''all'') (\<lambda>row. columns row ''Client'' = Some (selectedClient c)) ?s1"
  let ?s3 = "filter_if (selectedProject c \<noteq> ''all'') (\<lambda>row. columns row ''Project'' = Some (selectedProject c)) ?s2"
  let ?s4 = "filter_if (selectedTask c \<noteq> ''all'') (\<lambda>row. columns row ''Task'' = Some (selectedTask c)) ?s3"
  let ?s5 = "filter_if (selectedDateRange c \<noteq> range_all) (date_test rt (the (ranges (selectedDateRange c)))) ?s4"
  have "frame_inv a st False (a, st)"
    using a by (simp add: frame_inv_def)
  then have "frame_inv a st (False \<or> selectedEmployee c \<noteq> ''all'') ?s1"
    by (rule frame_inv_filter_if)
  then have "frame_inv a st ((False \<or> selectedEmployee c \<noteq> ''all'') \<or> selectedClient c \<noteq> ''all'') ?s2"
    by (rule frame_inv_filter_if)
  then have "frame_inv a st (((False \<or> selectedEmployee c \<noteq> ''all'') \<or> selectedClient c \<noteq> ''all'')
      \<or> selectedProject c \<noteq> ''all'') ?s3"
    by (rule frame_inv_filter_if)
  then have "frame_inv a st ((((False \<or> selectedEmployee c \<noteq> ''all'') \<or> selectedClient c \<noteq> ''all'')
      \<or> selectedProject c \<noteq> ''all'') \<or> selectedTask c \<noteq> ''all'') ?s4"
    by (rule frame_inv_filter_if)
  then have "frame_inv a st (((((False \<or> selectedEmployee c \<noteq> ''all'') \<or> selectedClient c \<noteq> ''all'')
      \<or> selectedProject c \<noteq> ''all'') \<or> selectedTask c \<noteq> ''all'') \<or> selectedDateRange c \<noteq> range_all) ?s5"
    by (rule frame_inv_filter_if)
  with sel have "frame_inv a st True ?s5"
    by simp
  then have "cells (snd ?s5) a = cells st a" "fst ?s5 \<noteq> a"
    by (simp_all add: frame_inv_def)
  then show ?thesis
    unfolding filteredData_steps by (simp add: Let_def Array_sort_def)
qed

text \<open>
  C9 says that running the Filter Pipeline leaves the normalized entry sequence
  unchanged. With no selection (the initial criteria) the code sorts the array
  \<open>processedData\<close> itself: two rows dated 2024-01-24 and 2024-01-25 are in that order
  before \<open>filteredData\<close> runs and in the opposite order after.
\<close>

theorem filteredData_sorts_processedData_in_place:
  "(let rt = runtime_UTC 0;
        st0 = store_of (processedData rt
                (handleFileUpload [[''Date'' \<mapsto> ''2024-01-24''], [''Date'' \<mapsto> ''2024-01-25'']]));
        (filtered, st1) = filteredData rt initial_criteria 0 st0
    in filtered = 0
       \<and> map Date (contents st0 0) = [Some 1706054400000, Some 1706140800000]
       \<and> map Date (contents st1 0) = [Some 1706140800000, Some 1706054400000])"
  using parse_2024_01_24 parse_2024_01_25
  by (simp add: filteredData_no_selection processedData_def handleFileUpload_def truthy_def
      process_row_def new_Date_def runtime_UTC_def TimeClip_def maxTime_def contents_def
      store_of_def sorted_by_def SortCompare_def js_sub_def valueOf_def js_gt_def)

section \<open>The calendar\<close>

lemma DayFromYear_after: "365 * int n \<le> DayFromYear (1970 + int n)"
proof (induction n)
  case 0
  then show ?case by (simp add: DayFromYear_def)
next
  case (Suc n)
  have "DayFromYear (1970 + int n + 1) = DayFromYear (1970 + int n) + DaysInYear (1970 + int n)"
    by (rule DayFromYear_Suc)
  with Suc DaysInYear_bounds [of "1970 + int n"] show ?case
    by (simp add: algebra_simps)
qed

lemma DayFromYear_before: "- 366 * int n \<le> DayFromYear (1970 - int n)"
proof (induction n)
  case 0
  then show ?case by (simp add: DayFromYear_def)
next
  case (Suc n)
  have "DayFromYear (1970 - int (Suc n) + 1) = DayFromYear (1970 - int (Suc n)) + DaysInYear (1970 - int (Suc n))"
    by (rule DayFromYear_Suc)
  moreover have "1970 - int (Suc n) + 1 = 1970 - int n" by simp
  ultimately show ?case
    using Suc DaysInYear_bounds [of "1970 - int (Suc n)"] by (simp add: algebra_simps)
qed

lemma less_next_multiple: "0 < k \<Longrightarrow> d < k * (d div k + 1)" for d k :: int
proof -
  assume k: "0 < k"
  define q r where "q = d div k" and "r = d mod k"
  have "d = k * q + r" "r < k"
    using k by (simp_all add: q_def r_def)
  then have "d < k * q + k" by simp
  then show ?thesis by (simp add: q_def algebra_simps)
qed

lemma year_down_greatest:
  "DayFromYear (year_down d y) \<le> d \<and> year_down d y \<le> y
   \<and> (\<forall>z. year_down d y < z \<and> z \<le> y \<longrightarrow> d < DayFromYear z)"
proof (induction d y rule: year_down.induct)
  case (1 d y)
  show ?case
  proof (cases "DayFromYear y \<le> d")
    case True
    then show ?thesis by (simp add: year_down.simps [of d y])
  next
    case False
    with 1 have IH: "DayFromYear (year_down d (y - 1)) \<le> d" "year_down d (y - 1) \<le> y - 1"
      "\<forall>z. year_down d (y - 1) < z \<and> z \<le> y - 1 \<longrightarrow> d < DayFromYear z"
      by simp_all
    have "d < DayFromYear z" if "year_down d (y - 1) < z" "z \<le> y" for z
    proof (cases "z = y")
      case True
      with False show ?thesis by simp
    next
      case False
      with that IH(3) show ?thesis by simp
    qed
    with False IH show ?thesis by (simp add: year_down.simps [of d y])
  qed
qed

text \<open>\<open>YearFromTime t\<close> is the year of \<open>t\<close>: the largest year that starts at or before
  the day of \<open>t\<close>.\<close>

lemma YearFromTime_spec:
  "DayFromYear (YearFromTime t) \<le> Day t \<and> Day t < DayFromYear (YearFromTime t + 1)"
proof -
  define d where "d = Day t"
  define y0 where "y0 = 1970 + d div (if 0 \<le> d then 365 else 366)"
  have above: "d < DayFromYear (y0 + 1)"
  proof (cases "0 \<le> d")
    case True
    then have "y0 + 1 = 1970 + int (nat (d div 365 + 1))"
      by (simp add: y0_def pos_imp_zdiv_nonneg_iff)
    then have "365 * (d div 365 + 1) \<le> DayFromYear (y0 + 1)"
      using DayFromYear_after [of "nat (d div 365 + 1)"] True
      by (simp add: pos_imp_zdiv_nonneg_iff)
    moreover have "d < 365 * (d div 365 + 1)"
      by (rule less_next_multiple) simp
    ultimately show ?thesis by linarith
  next
    case False
    then have neg: "d div 366 + 1 \<le> 0"
      by (simp add: div_neg_pos_less0 zless_imp_add1_zle)
    then have "y0 + 1 = 1970 - int (nat (- (d div 366 + 1)))"
      using False by (simp add: y0_def)
    then have "366 * (d div 366 + 1) \<le> DayFromYear (y0 + 1)"
      using DayFromYear_before [of "nat (- (d div 366 + 1))"] neg by simp
    moreover have "d < 366 * (d div 366 + 1)"
      by (rule less_next_multiple) simp
    ultimately show ?thesis by linarith
  qed
  have Y: "YearFromTime t = year_down d y0"
    by (simp add: YearFromTime_def Let_def d_def y0_def)
  note g = year_down_greatest [of d y0]
  have "d < DayFromYear (year_down d y0 + 1)"
  proof (cases "year_down d y0 = y0")
    case True
    with above show ?thesis by simp
  next
    case False
    with g show ?thesis by simp
  qed
  with g show ?thesis by (simp add: Y d_def)
qed

lemma DayWithinYear_range: "0 \<le> DayWithinYear t \<and> DayWithinYear t < DaysInYear (YearFromTime t)"
  using YearFromTime_spec [of t] DayFromYear_Suc [of "YearFromTime t"]
  by (simp add: DayWithinYear_def)

text \<open>The month and the day of the month: \<open>MakeDay\<close> undoes them, and the day of
  the month lies within the month.\<close>

lemma MonthFromTime_range: "0 \<le> MonthFromTime t \<and> MonthFromTime t \<le> 11"
  by (simp add: MonthFromTime_def Let_def)

lemma MakeDay_same_month:
  "MakeDay (YearFromTime t) (MonthFromTime t) dt = Day t - DateFromTime t + dt"
proof -
  have "MonthFromTime t div 12 = 0" "MonthFromTime t mod 12 = MonthFromTime t"
    using MonthFromTime_range [of t] by simp_all
  then show ?thesis
    by (simp add: MakeDay_def DateFromTime_def DayWithinYear_def InLeapYear_def Let_def)
qed

lemma MakeDay_date: "MakeDay (YearFromTime t) (MonthFromTime t) (DateFromTime t) = Day t"
  by (simp add: MakeDay_same_month)

lemma InLeapYear_cases: "InLeapYear t = 0 \<or> InLeapYear t = 1"
  by (simp add: InLeapYear_def)

lemma DaysInYear_leap: "DaysInYear (YearFromTime t) = 365 + InLeapYear t"
  by (simp add: InLeapYear_def DaysInYear_def)

lemma month_of_day:
  fixes d leap mo :: int
  assumes "0 \<le> d" and "d < 365 + leap" and "leap = 0 \<or> leap = 1"
    and "mo = (if d < 31 then 0 else if d < 59 + leap then 1 else if d < 90 + leap then 2
         else if d < 120 + leap then 3 else if d < 151 + leap then 4
         else if d < 181 + leap then 5 else if d < 212 + leap then 6
         else if d < 243 + leap then 7 else if d < 273 + leap then 8
         else if d < 304 + leap then 9 else if d < 334 + leap then 10 else 11)"
  shows "month_start leap mo \<le> d
     \<and> d < (if mo = 11 then 365 + leap else month_start leap (mo + 1))
     \<and> d - month_start leap mo < 31"
  using assms unfolding month_start_def by auto

lemma date_of_time:
  "1 \<le> DateFromTime t \<and> DateFromTime t \<le> 31
   \<and> DayWithinYear t < (if MonthFromTime t = 11 then 365 + InLeapYear t
                          else month_start (InLeapYear t) (MonthFromTime t + 1))"
proof -
  have "0 \<le> DayWithinYear t" "DayWithinYear t < 365 + InLeapYear t"
    using DayWithinYear_range [of t] by (simp_all add: DaysInYear_leap)
  then have "month_start (InLeapYear t) (MonthFromTime t) \<le> DayWithinYear t
     \<and> DayWithinYear t < (if MonthFromTime t = 11 then 365 + InLeapYear t
                            else month_start (InLeapYear t) (MonthFromTime t + 1))
     \<and> DayWithinYear t - month_start (InLeapYear t) (MonthFromTime t) < 31"
    using InLeapYear_cases [of t]
    by (rule month_of_day) (simp add: MonthFromTime_def Let_def)
  then show ?thesis by (simp add: DateFromTime_def)
qed

lemma MakeDay_next_month:
  "Day t < MakeDay (YearFromTime t) (MonthFromTime t + 1) 1"
proof (cases "MonthFromTime t = 11")
  case True
  then show ?thesis
    using YearFromTime_spec [of t] by (simp add: MakeDay_def Let_def month_start_def)
next
  case False
  with MonthFromTime_range [of t] have m: "0 \<le> MonthFromTime t + 1" "MonthFromTime t + 1 < 12"
    by simp_all
  then have "(MonthFromTime t + 1) div 12 = 0" "(MonthFromTime t + 1) mod 12 = MonthFromTime t + 1"
    by simp_all
  then show ?thesis
    using date_of_time [of t] False
    by (simp add: MakeDay_def Let_def InLeapYear_def DayWithinYear_def)
qed

lemma Day_shift: "Day (t - k * msPerDay) = Day t - k"
  by (simp add: Day_def msPerDay_def)

lemma TimeWithinDay_shift: "TimeWithinDay (t - k * msPerDay) = TimeWithinDay t"
proof -
  have "t - k * msPerDay = t + (- k) * msPerDay" by simp
  then show ?thesis unfolding TimeWithinDay_def by (simp only: mod_mult_self1)
qed

lemma MakeDate_Day: "MakeDate (Day t - k) (TimeWithinDay t) = t - k * msPerDay"
  by (simp add: MakeDate_def Day_def TimeWithinDay_def algebra_simps)

text \<open>Days of the years 1000 to 9999 are times the language can represent.\<close>

lemma DayFromYear_mono: "y \<le> z \<Longrightarrow> DayFromYear y \<le> DayFromYear z"
proof -
  have "DayFromYear y \<le> DayFromYear (y + int n)" for n
  proof (induction n)
    case 0
    then show ?case by simp
  next
    case (Suc n)
    have "DayFromYear (y + int n + 1) = DayFromYear (y + int n) + DaysInYear (y + int n)"
      by (rule DayFromYear_Suc)
    with Suc DaysInYear_bounds [of "y + int n"] show ?case
      by (simp add: algebra_simps)
  qed
  from this [of "nat (z - y)"] show "y \<le> z \<Longrightarrow> DayFromYear y \<le> DayFromYear z"
    by simp
qed

lemma day_of_four_digit_year:
  assumes "1000 \<le> YearFromTime t" and "YearFromTime t \<le> 9999"
  shows "\<bar>Day t * msPerDay\<bar> \<le> maxTime"
proof -
  have "DayFromYear 1000 \<le> Day t"
    using DayFromYear_mono [OF assms(1)] YearFromTime_spec [of t] by simp
  moreover have "Day t < DayFromYear 10000"
    using DayFromYear_mono [of "YearFromTime t + 1" 10000] assms(2) YearFromTime_spec [of t]
    by simp
  ultimately have "- 354285 \<le> Day t" "Day t < 2932897"
    by (simp_all add: DayFromYear_def)
  then show ?thesis
    by (simp add: msPerDay_def maxTime_def abs_le_iff)
qed

section \<open>Dates as strings\<close>

text \<open>Decimal digits: \<open>String\<close> of a number below 10, 100 and 10000, and the value
  of the digits read back.\<close>

lemma digit_char:
  assumes "n < 10"
  shows "is_digit (''0123456789'' ! n) \<and> digit_val (''0123456789'' ! n) = n"
proof -
  from assms have "n \<in> {0, 1, 2, 3, 4, 5, 6, 7, 8, 9}"
    by auto
  then show ?thesis
    by (auto simp add: is_digit_def digit_val_def)
qed

lemma String_nat_1: "n < 10 \<Longrightarrow> String_nat n = [''0123456789'' ! n]"
  by (simp add: String_nat.simps [of n])

lemma String_nat_2:
  assumes "10 \<le> n" and "n < 100"
  shows "String_nat n = [''0123456789'' ! (n div 10), ''0123456789'' ! (n mod 10)]"
proof -
  have "n div 10 < 10" using assms by simp
  then show ?thesis
    using assms by (simp add: String_nat.simps [of n] String_nat_1)
qed

lemma String_nat_4:
  assumes "1000 \<le> n" and "n < 10000"
  shows "String_nat n = [''0123456789'' ! (n div 1000), ''0123456789'' ! (n div 100 mod 10),
                         ''0123456789'' ! (n div 10 mod 10), ''0123456789'' ! (n mod 10)]"
proof -
  have a: "10 \<le> n div 100" "n div 100 < 100" using assms by arith+
  have c: "\<not> n div 10 < 10" "\<not> n < 10" using assms by arith+
  have b: "n div 10 div 10 = n div 100" "n div 100 div 10 = n div 1000"
    by (simp_all add: div_mult2_eq [symmetric])
  have "String_nat n = String_nat (n div 10) @ [''0123456789'' ! (n mod 10)]"
    using c by (simp add: String_nat.simps [of n])
  also have "String_nat (n div 10) = String_nat (n div 100) @ [''0123456789'' ! (n div 10 mod 10)]"
    using c by (simp add: String_nat.simps [of "n div 10"] b)
  also have "String_nat (n div 100) = [''0123456789'' ! (n div 1000), ''0123456789'' ! (n div 100 mod 10)]"
    using String_nat_2 [OF a] by (simp add: b)
  finally show ?thesis by simp
qed

lemma padStart2_String_nat:
  assumes "n < 100"
  shows "padStart2 (String_nat n) = [''0123456789'' ! (n div 10), ''0123456789'' ! (n mod 10)]"
proof (cases "n < 10")
  case True
  then show ?thesis by (simp add: padStart2_def String_nat_1)
next
  case False
  with assms show ?thesis by (simp add: padStart2_def String_nat_2)
qed

lemma digits_val_2:
  assumes "n < 100"
  shows "list_all is_digit [''0123456789'' ! (n div 10), ''0123456789'' ! (n mod 10)]
     \<and> digits_val [''0123456789'' ! (n div 10), ''0123456789'' ! (n mod 10)] = n"
proof -
  have "n div 10 < 10" "n mod 10 < 10" using assms by arith+
  then show ?thesis
    using digit_char [of "n div 10"] digit_char [of "n mod 10"]
    by (simp add: digits_val_def)
qed

lemma decimal_4:
  fixes n :: nat
  shows "1000 * (n div 1000) + 100 * (n div 100 mod 10) + 10 * (n div 10 mod 10) + n mod 10 = n"
proof -
  define q1 q2 q3 r0 r1 r2 where "q1 = n div 10" and "q2 = q1 div 10" and "q3 = q2 div 10"
    and "r0 = n mod 10" and "r1 = q1 mod 10" and "r2 = q2 mod 10"
  have a: "n = 10 * q1 + r0" "q1 = 10 * q2 + r1" "q2 = 10 * q3 + r2"
    unfolding q1_def q2_def q3_def r0_def r1_def r2_def by simp_all
  have b: "n div 100 = q2" "n div 1000 = q3"
    unfolding q1_def q2_def q3_def by (simp_all add: div_mult2_eq [symmetric])
  have "1000 * q3 + 100 * r2 + 10 * r1 + r0 = n"
    using a by simp
  then show ?thesis
    unfolding b unfolding q1_def q2_def q3_def r0_def r1_def r2_def .
qed

lemma digits_val_4:
  assumes "n < 10000"
  shows "list_all is_digit [''0123456789'' ! (n div 1000), ''0123456789'' ! (n div 100 mod 10),
                         ''0123456789'' ! (n div 10 mod 10), ''0123456789'' ! (n mod 10)]
     \<and> digits_val [''0123456789'' ! (n div 1000), ''0123456789'' ! (n div 100 mod 10),
                         ''0123456789'' ! (n div 10 mod 10), ''0123456789'' ! (n mod 10)] = n"
proof -
  have "n div 1000 < 10"
    using assms by (simp add: div_less_iff_less_mult)
  then show ?thesis
    using digit_char [of "n div 1000"] digit_char [of "n div 100 mod 10"]
      digit_char [of "n div 10 mod 10"] digit_char [of "n mod 10"] decimal_4 [of n]
    by (simp add: digits_val_def)
qed

text \<open>The form \<open>yyyy-MM-dd\<close> of a day in the years 1000 to 9999 is ten characters,
  and the ISO parser reads it as midnight UTC of that day.\<close>

lemma Date_parse_ISO_shape:
  assumes "list_all is_digit [a, b, c, d, e, f, g, h]"
  shows "Date_parse_ISO [a, b, c, d, CHR ''-'', e, f, CHR ''-'', g, h]
     = (let y = int (digits_val [a, b, c, d]); m = int (digits_val [e, f]);
            dt = int (digits_val [g, h])
        in if 1 \<le> m \<and> m \<le> 12 \<and> 1 \<le> dt \<and> MakeDay y (m - 1) dt < MakeDay y m 1
           then Some (MakeDate (MakeDay y (m - 1) dt) 0) else None)"
  using assms by (simp add: Date_parse_ISO_def)

lemma yyyy_MM_dd_digits:
  assumes "1000 \<le> YearFromTime t" and "YearFromTime t \<le> 9999"
  defines "y \<equiv> nat (YearFromTime t)" and "mo \<equiv> nat (MonthFromTime t + 1)"
    and "dt \<equiv> nat (DateFromTime t)"
  shows "yyyy_MM_dd t
      = [''0123456789'' ! (y div 1000), ''0123456789'' ! (y div 100 mod 10),
         ''0123456789'' ! (y div 10 mod 10), ''0123456789'' ! (y mod 10), CHR ''-'',
         ''0123456789'' ! (mo div 10), ''0123456789'' ! (mo mod 10), CHR ''-'',
         ''0123456789'' ! (dt div 10), ''0123456789'' ! (dt mod 10)]"
proof -
  have y: "1000 \<le> y" "y < 10000"
    using assms(1,2) by (simp_all add: y_def)
  have mo: "mo < 100"
    using MonthFromTime_range [of t] unfolding mo_def by arith
  have dt: "dt < 100"
    using date_of_time [of t] unfolding dt_def by arith
  have 1: "String_int (YearFromTime t) = String_nat y"
    using assms(1) by (simp add: String_int_def y_def)
  have 2: "String_int (MonthFromTime t + 1) = String_nat mo"
    using MonthFromTime_range [of t] by (simp add: String_int_def mo_def)
  have 3: "String_int (DateFromTime t) = String_nat dt"
    using date_of_time [of t] by (simp add: String_int_def dt_def)
  show ?thesis
    unfolding yyyy_MM_dd_def 1 2 3 String_nat_4 [OF y] padStart2_String_nat [OF mo]
      padStart2_String_nat [OF dt]
    by simp
qed

lemma yyyy_MM_dd_reads_as_day:
  assumes "1000 \<le> YearFromTime t" and "YearFromTime t \<le> 9999"
  shows "Date_parse_ISO (yyyy_MM_dd t) = Some (Day t * msPerDay)"
proof -
  define y mo dt where "y = nat (YearFromTime t)" and "mo = nat (MonthFromTime t + 1)"
    and "dt = nat (DateFromTime t)"
  have y: "y < 10000" "int y = YearFromTime t"
    using assms by (simp_all add: y_def)
  have mo: "int mo = MonthFromTime t + 1" "1 \<le> int mo" "int mo \<le> 12"
    using MonthFromTime_range [of t] by (simp_all add: mo_def)
  have mo100: "mo < 100"
    using mo(3) by arith
  have dt: "int dt = DateFromTime t" "1 \<le> int dt"
    using date_of_time [of t] by (simp_all add: dt_def)
  have dt100: "dt < 100"
    using date_of_time [of t] dt(1) by arith
  have in_month: "MakeDay (int y) (int mo - 1) (int dt) < MakeDay (int y) (int mo) 1"
    using MakeDay_next_month [of t] by (simp add: y mo dt MakeDay_date)
  have day: "MakeDay (int y) (int mo - 1) (int dt) = Day t"
    by (simp add: y mo dt MakeDay_date)
  note d4 = digits_val_4 [OF y(1)] and d2 = digits_val_2 [OF mo100] and d2' = digits_val_2 [OF dt100]
  have digits: "list_all is_digit
     [''0123456789'' ! (y div 1000), ''0123456789'' ! (y div 100 mod 10),
      ''0123456789'' ! (y div 10 mod 10), ''0123456789'' ! (y mod 10),
      ''0123456789'' ! (mo div 10), ''0123456789'' ! (mo mod 10),
      ''0123456789'' ! (dt div 10), ''0123456789'' ! (dt mod 10)]"
    using d4 d2 d2' by simp
  show ?thesis
    unfolding yyyy_MM_dd_digits [OF assms] y_def [symmetric] mo_def [symmetric] dt_def [symmetric]
      Date_parse_ISO_shape [OF digits]
    using d4 d2 d2' in_month day mo(2,3) dt(2)
    by (simp add: Let_def MakeDate_def)
qed

text \<open>What \<open>formatDate\<close> gives: the form \<open>yyyy-MM-dd\<close> of the local time of a valid
  date.\<close>

lemma formatDate_invalid: "formatDate_yyyy_MM_dd rt None = ''NaN-NaN-NaN''"
  by (simp add: formatDate_yyyy_MM_dd_def Date_copy_def)

lemma formatDate_local:
  "\<bar>m\<bar> \<le> maxTime \<Longrightarrow> formatDate_yyyy_MM_dd rt (Some m) = yyyy_MM_dd (LocalTime rt m)"
  by (simp add: formatDate_yyyy_MM_dd_def Date_copy_def TimeClip_def getFullYear_def
      getMonth_def getDate_def yyyy_MM_dd_def)

section \<open>The week start\<close>

text \<open>\<open>setDate\<close> with the \<open>diff\<close> of \<open>startOfWeek\<close> moves the local time back to
  the Monday of its week and keeps the time of day.\<close>

lemma setDate_week:
  "setDate rt t (getDate rt t - getDay rt t + (if getDay rt t = 0 then - 6 else 1))
     = TimeClip (UTC rt (LocalTime rt t - days_since_monday (getDay rt t) * msPerDay))"
proof -
  let ?lt = "LocalTime rt t"
  have "MakeDay (YearFromTime ?lt) (MonthFromTime ?lt)
          (DateFromTime ?lt - WeekDay ?lt + (if WeekDay ?lt = 0 then - 6 else 1))
        = Day ?lt - days_since_monday (WeekDay ?lt)"
    by (simp add: MakeDay_same_month days_since_monday_def)
  then show ?thesis
    by (simp add: setDate_def getDate_def getDay_def Let_def MakeDate_Day)
qed

lemma Date_copy_TimeClip: "Date_copy (TimeClip t) = TimeClip t"
  by (simp add: Date_copy_def TimeClip_def)

lemma startOfWeek_local:
  assumes "\<bar>t\<bar> \<le> maxTime"
  shows "startOfWeek rt (Some t) = TimeClip (UTC rt (local_monday (LocalTime rt t)))"
  using assms setDate_week [of rt t]
  by (simp add: startOfWeek_def Date_copy_def Date_copy_TimeClip TimeClip_def Let_def getDay_def
      local_monday_def)

lemma startOfWeek_invalid: "startOfWeek rt None = None"
  by (simp add: startOfWeek_def Date_copy_def)

lemma WeekDay_monday: "WeekDay (t - days_since_monday (WeekDay t) * msPerDay) = 1"
proof -
  define w q where "w = (Day t + 4) mod 7" and "q = (Day t + 4) div 7"
  have "Day t + 4 = 7 * q + w"
    by (simp add: w_def q_def)
  then have "Day t - days_since_monday w + 4 = 1 + 7 * (q - (if w = 0 then 1 else 0))"
    by (simp add: days_since_monday_def)
  then have "(Day t - days_since_monday w + 4) mod 7 = 1"
    by (simp only: mod_mult_self2) simp
  then show ?thesis by (simp add: WeekDay_def Day_shift w_def)
qed

lemma local_monday_is_monday:
  "WeekDay (local_monday lt) = 1
   \<and> Day (local_monday lt) = Day lt - days_since_monday (WeekDay lt)
   \<and> TimeWithinDay (local_monday lt) = TimeWithinDay lt"
  by (simp add: local_monday_def WeekDay_monday Day_shift TimeWithinDay_shift)

text \<open>The week key of an entry.\<close>

lemma processed_date_valid:
  assumes "e \<in> set (processedData rt csvData)" and "Date e = Some t"
  shows "\<bar>t\<bar> \<le> maxTime"
  using assms
  by (auto simp add: processedData_def process_row_def new_Date_def TimeClip_def
      split: option.splits if_splits)

lemma filtered_entries_subset:
  "e \<in> set (filtered_entries rt c xs) \<Longrightarrow> e \<in> set xs"
  by (simp add: filtered_entries_eq set_sorted_by)

lemma weekKey_of_invalid: "Date e = None \<Longrightarrow> weekKey_of rt e = ''NaN-NaN-NaN''"
  by (simp add: weekKey_of_def startOfWeek_invalid formatDate_invalid)

lemma weekKey_of_valid:
  assumes "Date e = Some t" and "\<bar>t\<bar> \<le> maxTime"
  shows "weekKey_of rt e
     = formatDate_yyyy_MM_dd rt (TimeClip (UTC rt (local_monday (LocalTime rt t))))"
  using assms by (simp add: weekKey_of_def startOfWeek_local)

section \<open>The weekly buckets\<close>

text \<open>Every row is added to the record of its employee under its week key, and stays
  there.\<close>

lemma has_record_add_week_row:
  "has_record (add_week_row rt weekMap row) (weekKey_of rt row) (Full_Name row)"
  by (simp add: has_record_def add_week_row_def weekKey_of_def Let_def update_conv')

lemma has_record_kept:
  "has_record weekMap k emp \<Longrightarrow> has_record (add_week_row rt weekMap row) k emp"
  by (auto simp add: has_record_def add_week_row_def Let_def update_conv')

lemma has_record_foldl_kept:
  "has_record weekMap k emp \<Longrightarrow> has_record (foldl (add_week_row rt) weekMap rows) k emp"
  by (induction rows arbitrary: weekMap) (simp_all add: has_record_kept)

lemma has_record_foldl:
  "e \<in> set rows \<Longrightarrow> has_record (foldl (add_week_row rt) weekMap rows) (weekKey_of rt e) (Full_Name e)"
proof (induction rows arbitrary: weekMap)
  case Nil
  then show ?case by simp
next
  case (Cons row rows)
  show ?case
  proof (cases "e = row")
    case True
    then show ?thesis
      using has_record_foldl_kept [OF has_record_add_week_row] by simp
  next
    case False
    with Cons show ?thesis by simp
  qed
qed

lemma has_day_add_week_row:
  "has_day (add_week_row rt weekMap row) (weekKey_of rt row) (Full_Name row)
     (formatDate_yyyy_MM_dd rt (Date row))"
  by (simp add: has_day_def add_week_row_def weekKey_of_def Let_def update_conv' Set_add_def)

lemma has_day_kept:
  "has_day weekMap k emp d \<Longrightarrow> has_day (add_week_row rt weekMap row) k emp d"
  by (auto simp add: has_day_def add_week_row_def Let_def update_conv' Set_add_def)

lemma has_day_foldl_kept:
  "has_day weekMap k emp d \<Longrightarrow> has_day (foldl (add_week_row rt) weekMap rows) k emp d"
  by (induction rows arbitrary: weekMap) (simp_all add: has_day_kept)

lemma has_day_foldl:
  "e \<in> set rows \<Longrightarrow>
   has_day (foldl (add_week_row rt) weekMap rows) (weekKey_of rt e) (Full_Name e)
     (formatDate_yyyy_MM_dd rt (Date e))"
proof (induction rows arbitrary: weekMap)
  case Nil
  then show ?case by simp
next
  case (Cons row rows)
  show ?case
  proof (cases "e = row")
    case True
    then show ?thesis
      using has_day_foldl_kept [OF has_day_add_week_row] by simp
  next
    case False
    with Cons show ?thesis by simp
  qed
qed

lemma counted_under_weekKey:
  assumes "e \<in> set filtered"
  shows "counted_under rt filtered e (weekKey_of rt e)"
proof -
  from has_day_foldl [OF assms, of rt "[]"]
  obtain m st where "map_of (foldl (add_week_row rt) [] filtered) (weekKey_of rt e) = Some m"
    and "map_of m (Full_Name e) = Some st"
    and "formatDate_yyyy_MM_dd rt (Date e) \<in> set (days st)"
    by (auto simp add: has_day_def)
  then have "(weekKey_of rt e, m) \<in> set (weeklyUtilization rt filtered)"
    "(Full_Name e, st) \<in> set m" "formatDate_yyyy_MM_dd rt (Date e) \<in> set (days st)"
    by (auto simp add: weeklyUtilization_def set_sorted_by dest: map_of_SomeD)
  then show ?thesis
    unfolding counted_under_def by fastforce
qed

text \<open>The hours of a record are the sum, in the order of the rows, of the hours of the
  rows of its employee and week key.\<close>

lemma hours_of_add_week_row:
  "hours_of (add_week_row rt weekMap row) k n
     = (if k = weekKey_of rt row \<and> n = Full_Name row
        then js_add (hours_of weekMap k n) (Hours row) else hours_of weekMap k n)"
  by (simp add: hours_of_def add_week_row_def weekKey_of_def Let_def update_conv' new_stats_def
      split: option.splits)

lemma hours_of_foldl:
  "hours_of (foldl (add_week_row rt) weekMap rows) k n
     = foldl js_add (hours_of weekMap k n)
         (map Hours (filter (\<lambda>r. weekKey_of rt r = k \<and> Full_Name r = n) rows))"
  by (induction rows arbitrary: weekMap) (simp_all add: hours_of_add_week_row)

lemma weeklyUtilization_hours:
  assumes "e \<in> set filtered"
  shows "\<exists>m st. (weekKey_of rt e, m) \<in> set (weeklyUtilization rt filtered)
           \<and> (Full_Name e, st) \<in> set m
           \<and> hours st = js_sum (map Hours
                (filter (\<lambda>r. weekKey_of rt r = weekKey_of rt e \<and> Full_Name r = Full_Name e) filtered))"
proof -
  let ?wm = "foldl (add_week_row rt) [] filtered"
  from has_record_foldl [OF assms, of rt "[]"]
  obtain m st where m: "map_of ?wm (weekKey_of rt e) = Some m"
    and st: "map_of m (Full_Name e) = Some st"
    by (auto simp add: has_record_def)
  have "hours st = hours_of ?wm (weekKey_of rt e) (Full_Name e)"
    by (simp add: hours_of_def m st)
  also have "\<dots> = js_sum (map Hours
      (filter (\<lambda>r. weekKey_of rt r = weekKey_of rt e \<and> Full_Name r = Full_Name e) filtered))"
    using hours_of_foldl [of rt "[]" filtered "weekKey_of rt e" "Full_Name e"]
    by (simp add: js_sum_def hours_of_def [of "[]"])
  finally have "hours st = js_sum (map Hours
      (filter (\<lambda>r. weekKey_of rt r = weekKey_of rt e \<and> Full_Name r = Full_Name e) filtered))" .
  moreover have "(weekKey_of rt e, m) \<in> set (weeklyUtilization rt filtered)" "(Full_Name e, st) \<in> set m"
    using m st by (auto simp add: weeklyUtilization_def set_sorted_by dest: map_of_SomeD)
  ultimately show ?thesis by blast
qed

text \<open>The keys of the weekly utilization sequence are distinct: an entry is counted
  under one key only.\<close>

lemma distinct_add_week_row:
  "distinct (map fst weekMap) \<Longrightarrow> distinct (map fst (add_week_row rt weekMap row))"
  by (simp add: add_week_row_def Let_def distinct_update)

lemma distinct_foldl_add_week_row:
  "distinct (map fst weekMap) \<Longrightarrow> distinct (map fst (foldl (add_week_row rt) weekMap rows))"
  by (induction rows arbitrary: weekMap) (simp_all add: distinct_add_week_row)

lemma mset_insert_sorted: "mset (insert_sorted cmp x ys) = add_mset x (mset ys)"
  by (induction ys) simp_all

lemma mset_sorted_by: "mset (sorted_by cmp xs) = mset xs"
  by (induction xs) (simp_all add: sorted_by_def mset_insert_sorted)

lemma distinct_keys_sorted_by:
  "distinct (map fst (sorted_by cmp xs)) \<longleftrightarrow> distinct (map fst xs)"
proof -
  have "mset (map fst (sorted_by cmp xs)) = mset (map fst xs)"
    by (simp add: mset_sorted_by)
  then show ?thesis by (rule mset_eq_imp_distinct_iff)
qed

lemma weeklyUtilization_distinct: "distinct (map fst (weeklyUtilization rt filtered))"
  by (simp add: weeklyUtilization_def distinct_keys_sorted_by distinct_foldl_add_week_row)

text \<open>The keys of the sequence are the week keys of the entries.\<close>

lemma keys_add_week_row:
  "fst ` set (add_week_row rt weekMap row) = insert (weekKey_of rt row) (fst ` set weekMap)"
proof -
  have "set (map fst (add_week_row rt weekMap row))
      = insert (weekKey_of rt row) (set (map fst weekMap))"
    by (auto simp add: add_week_row_def weekKey_of_def Let_def update_keys)
  then show ?thesis by simp
qed

lemma keys_foldl_add_week_row:
  "fst ` set (foldl (add_week_row rt) weekMap rows)
     = fst ` set weekMap \<union> weekKey_of rt ` set rows"
  by (induction rows arbitrary: weekMap) (simp_all add: keys_add_week_row)

lemma weeklyUtilization_keys:
  "fst ` set (weeklyUtilization rt filtered) = weekKey_of rt ` set filtered"
  by (simp add: weeklyUtilization_def set_sorted_by keys_foldl_add_week_row)

section \<open>Evaluation on examples\<close>

text \<open>Evaluation of the calendar, of strings and of the pipeline on numerals and
  literals.\<close>

lemmas calendar_eval = YearFromTime_def Day_def msPerDay_def year_down.simps DayFromYear_def
  MonthFromTime_def DateFromTime_def DayWithinYear_def InLeapYear_def DaysInYear_def
  month_start_def WeekDay_def TimeWithinDay_def MakeDay_def MakeDate_def TimeClip_def
  maxTime_def

lemmas string_eval = String_int_def String_nat.simps padStart2_def is_digit_def digits_val_def
  digit_val_def

lemmas number_eval = parseFloat_def ToString_def is_space_def StrUnsignedDecimalLiteral_def
  is_digit_def digits_val_def digit_val_def scale10_def ExponentPart_def or_zero_def

lemmas pipeline_eval = filtered_entries_eq passes_selects_def
  initial_criteria_def processedData_def handleFileUpload_def truthy_def process_row_def
  Array_includes_def INTERNAL_CLIENTS_def sorted_by_def SortCompare_def js_sub_def
  js_gt_def valueOf_def weeklyUtilization_def add_week_row_def week_compare_def
  new_stats_def Set_add_def Let_def ToString_def or_zero_def

lemma parse_dates:
  "Date_parse_ISO ''2024-01-15'' = Some 1705276800000"
  "Date_parse_ISO ''2024-01-17'' = Some 1705449600000"
  "Date_parse_ISO ''2024-01-18'' = Some 1705536000000"
  "Date_parse_ISO ''2024-01-21'' = Some 1705795200000"
  "Date_parse_ISO ''2024-03-11'' = Some 1710115200000"
  "Date_parse_ISO ''n/a'' = None"
  "Date_parse_ISO ''NaN-NaN-NaN'' = None"
  by (simp_all add: Date_parse_ISO_def calendar_eval string_eval)

lemma parse_hours:
  "parseFloat (Some ''40'') = Fin 40" "parseFloat (Some ''20'') = Fin 20"
  "parseFloat (Some ''8'') = Fin 8" "parseFloat (Some ''4'') = Fin 4"
  by (simp_all add: number_eval)

lemma week_keys:
  "yyyy_MM_dd 1705276800000 = ''2024-01-15''"
  "yyyy_MM_dd 1705345200000 = ''2024-01-15''"
  "yyyy_MM_dd 1704740400000 = ''2024-01-08''"
  "yyyy_MM_dd 1705258800000 = ''2024-01-14''"
  "yyyy_MM_dd 1709582400000 = ''2024-03-04''"
  by (simp_all add: yyyy_MM_dd_def calendar_eval string_eval)

lemma local_times:
  "local_monday 1705449600000 = 1705276800000"
  "local_monday 1705795200000 = 1705276800000"
  "local_monday 1705518000000 = 1705345200000"
  "local_monday 1705258800000 = 1704740400000"
  "local_monday 1710100800000 = 1709582400000"
  by (simp_all add: local_monday_def days_since_monday_def WeekDay_def Day_def msPerDay_def)

lemma UTC_minus_5_times:
  "LocalTime (runtime_UTC_minus_5 c) t = t - 18000000"
  "UTC (runtime_UTC_minus_5 c) t = t + 18000000"
  by (simp_all add: LocalTime_def UTC_def runtime_UTC_minus_5_def)

lemma New_York_times:
  "LocalTime (runtime_New_York_2024 c) 1710115200000 = 1710100800000"
  "UTC (runtime_New_York_2024 c) 1709582400000 = 1709600400000"
  "LocalTime (runtime_New_York_2024 c) 1709600400000 = 1709582400000"
  by (simp_all add: LocalTime_def UTC_def runtime_New_York_2024_def LocalTZA_New_York_2024_def)

lemma in_working_set:
  "row \<in> set rows \<Longrightarrow> truthy (row ''Date'') \<Longrightarrow>
   process_row rt row
     \<in> set (filtered_entries rt initial_criteria (processedData rt (handleFileUpload rows)))"
  by (simp add: filtered_entries_eq set_sorted_by passes_selects_def initial_criteria_def
      processedData_def handleFileUpload_def)

lemma ann_lee_Date: "Date (process_row rt (ann_lee d h)) = new_Date rt (Some d)"
  by (simp add: process_row_def ann_lee_def)

lemma ann_lee_truthy: "truthy (ann_lee d h ''Date'') \<longleftrightarrow> d \<noteq> []"
  by (simp add: ann_lee_def truthy_def)

lemma startOfWeek_UTC:
  "\<bar>t\<bar> \<le> maxTime \<Longrightarrow> startOfWeek (runtime_UTC c) (Some t) = TimeClip (local_monday t)"
  by (simp add: startOfWeek_local LocalTime_def UTC_def runtime_UTC_def)

lemma formatDate_UTC:
  "\<bar>t\<bar> \<le> maxTime \<Longrightarrow> formatDate_yyyy_MM_dd (runtime_UTC c) (Some t) = yyyy_MM_dd t"
  by (simp add: formatDate_local LocalTime_def runtime_UTC_def)

section \<open>The week of an entry\<close>

text \<open>
  C2, as stated, fails, in two ways. An entry with an invalid date is in the filtered
  working set, and it is counted under the key \<open>NaN-NaN-NaN\<close>, which is no date. And
  the week is that of the \<open>Date\<close> object read in local time, not that of the date the
  row was given: a date-only string is parsed as midnight UTC, so five hours west of UTC
  the row dated Monday 2024-01-15 is Sunday evening, 2024-01-14, and it is counted
  under the week of 2024-01-08.
\<close>

theorem week_is_not_the_monday_of_the_date:
  "(let rt = runtime_UTC 0;
        filtered = filtered_entries rt initial_criteria
                     (processedData rt (handleFileUpload [ann_lee ''n/a'' ''8'']))
    in map Date filtered = [None]
       \<and> map (\<lambda>(weekKey, m). (weekKey, map fst m)) (weeklyUtilization rt filtered)
           = [(''NaN-NaN-NaN'', [''Ann Lee''])]
       \<and> new_Date rt (Some ''NaN-NaN-NaN'') = None)
   \<and> (let rt = runtime_UTC_minus_5 0;
          filtered = filtered_entries rt initial_criteria
                       (processedData rt (handleFileUpload [ann_lee ''2024-01-15'' ''8'']))
      in Date_parse_ISO ''2024-01-15'' = Some 1705276800000
         \<and> WeekDay 1705276800000 = 1
         \<and> map Date filtered = [Some 1705276800000]
         \<and> map (\<lambda>(weekKey, m). (weekKey, map (\<lambda>(n, st). (n, days st)) m))
               (weeklyUtilization rt filtered)
             = [(''2024-01-08'', [(''Ann Lee'', [''2024-01-14''])])])"
proof -
  let ?utc = "runtime_UTC 0" and ?west = "runtime_UTC_minus_5 0"
  have invalid: "new_Date ?utc (Some ''n/a'') = None" "new_Date ?utc (Some ''NaN-NaN-NaN'') = None"
    by (simp_all add: new_Date_def runtime_UTC_def parse_dates)
  have monday: "new_Date ?west (Some ''2024-01-15'') = Some 1705276800000"
    by (simp add: new_Date_def runtime_UTC_minus_5_def parse_dates TimeClip_def maxTime_def)
  have start: "startOfWeek ?west (Some 1705276800000) = Some 1704758400000"
    by (simp add: startOfWeek_local UTC_minus_5_times local_times TimeClip_def maxTime_def)
  have days: "formatDate_yyyy_MM_dd ?west (Some 1704758400000) = ''2024-01-08''"
    "formatDate_yyyy_MM_dd ?west (Some 1705276800000) = ''2024-01-14''"
    by (simp_all add: formatDate_local UTC_minus_5_times week_keys maxTime_def)
  have 1: "(let rt = ?utc;
        filtered = filtered_entries rt initial_criteria
                     (processedData rt (handleFileUpload [ann_lee ''n/a'' ''8'']))
    in map Date filtered = [None]
       \<and> map (\<lambda>(weekKey, m). (weekKey, map fst m)) (weeklyUtilization rt filtered)
           = [(''NaN-NaN-NaN'', [''Ann Lee''])]
       \<and> new_Date rt (Some ''NaN-NaN-NaN'') = None)"
    by (simp add: pipeline_eval ann_lee_def invalid parse_hours startOfWeek_invalid
        formatDate_invalid)
  have 2: "(let rt = ?west;
          filtered = filtered_entries rt initial_criteria
                       (processedData rt (handleFileUpload [ann_lee ''2024-01-15'' ''8'']))
      in Date_parse_ISO ''2024-01-15'' = Some 1705276800000
         \<and> WeekDay 1705276800000 = 1
         \<and> map Date filtered = [Some 1705276800000]
         \<and> map (\<lambda>(weekKey, m). (weekKey, map (\<lambda>(n, st). (n, days st)) m))
               (weeklyUtilization rt filtered)
             = [(''2024-01-08'', [(''Ann Lee'', [''2024-01-14''])])])"
    by (simp add: pipeline_eval ann_lee_def monday start days parse_hours parse_dates
        WeekDay_def Day_def msPerDay_def)
  show ?thesis
    using 1 2 by (rule conjI)
qed

text \<open>
  C2, amended. For every entry in the filtered working set whose date is a valid date,
  the Weekly Utilization Aggregator counts it under the Monday of the calendar week of
  that date, the date being the instant the entry holds, read in local time: the week
  start is 6 days earlier if the date falls on a Sunday, otherwise it is the date minus
  (weekday - 1) days with Monday as weekday 1, at the same local time of day (so a
  Wednesday maps to the Monday of the same week and a Sunday to the Monday six days
  earlier). The key of the bucket is the \<open>yyyy-MM-dd\<close> form of that Monday, where that
  local time exists and is a time the language can represent; for the years 1000 to 9999
  the key reads back, as an ISO date, as the day of that Monday. An entry whose date is
  invalid, or whose week start cannot be represented, is counted under the key
  \<open>NaN-NaN-NaN\<close>. The keys of the sequence are distinct. (Which instant a date string
  is parsed to is not part of this statement.)
\<close>

theorem week_of_valid_date_is_local_monday:
  "e \<in> set (filtered_entries rt c (processedData rt csvData)) \<longrightarrow>
     (let filtered = filtered_entries rt c (processedData rt csvData)
      in distinct (map fst (weeklyUtilization rt filtered))
         \<and> (case Date e of
              None \<Rightarrow> counted_under rt filtered e ''NaN-NaN-NaN''
            | Some t \<Rightarrow>
                (let lt = LocalTime rt t; lm = local_monday lt; weekStart = UTC rt lm
                 in lm = lt - (if WeekDay lt = 0 then 6 else WeekDay lt - 1) * msPerDay
                    \<and> WeekDay lm = 1
                    \<and> Day lm = Day lt - (if WeekDay lt = 0 then 6 else WeekDay lt - 1)
                    \<and> TimeWithinDay lm = TimeWithinDay lt
                    \<and> startOfWeek rt (Date e) = TimeClip weekStart
                    \<and> (\<bar>weekStart\<bar> \<le> maxTime \<and> LocalTime rt weekStart = lm
                          \<longrightarrow> counted_under rt filtered e (yyyy_MM_dd lm))
                    \<and> (maxTime < \<bar>weekStart\<bar>
                          \<longrightarrow> counted_under rt filtered e ''NaN-NaN-NaN'')
                    \<and> (1000 \<le> YearFromTime lm \<and> YearFromTime lm \<le> 9999
                          \<longrightarrow> Date_parse_ISO (yyyy_MM_dd lm) = Some (Day lm * msPerDay)))))"
proof
  let ?filtered = "filtered_entries rt c (processedData rt csvData)"
  assume e: "e \<in> set ?filtered"
  have counted: "counted_under rt ?filtered e (weekKey_of rt e)"
    using e by (rule counted_under_weekKey)
  have keys: "distinct (map fst (weeklyUtilization rt ?filtered))"
    by (rule weeklyUtilization_distinct)
  have dates: "(case Date e of
        None \<Rightarrow> counted_under rt ?filtered e ''NaN-NaN-NaN''
      | Some t \<Rightarrow>
          (let lt = LocalTime rt t; lm = local_monday lt; weekStart = UTC rt lm
           in lm = lt - (if WeekDay lt = 0 then 6 else WeekDay lt - 1) * msPerDay
              \<and> WeekDay lm = 1
              \<and> Day lm = Day lt - (if WeekDay lt = 0 then 6 else WeekDay lt - 1)
              \<and> TimeWithinDay lm = TimeWithinDay lt
              \<and> startOfWeek rt (Date e) = TimeClip weekStart
              \<and> (\<bar>weekStart\<bar> \<le> maxTime \<and> LocalTime rt weekStart = lm
                    \<longrightarrow> counted_under rt ?filtered e (yyyy_MM_dd lm))
              \<and> (maxTime < \<bar>weekStart\<bar>
                    \<longrightarrow> counted_under rt ?filtered e ''NaN-NaN-NaN'')
              \<and> (1000 \<le> YearFromTime lm \<and> YearFromTime lm \<le> 9999
                    \<longrightarrow> Date_parse_ISO (yyyy_MM_dd lm) = Some (Day lm * msPerDay))))"
  proof (cases "Date e")
    case None
    then show ?thesis
      using counted by (simp add: weekKey_of_invalid)
  next
    case (Some t)
    let ?lt = "LocalTime rt t"
    let ?lm = "local_monday ?lt"
    let ?ws = "UTC rt ?lm"
    have t: "\<bar>t\<bar> \<le> maxTime"
      using e Some by (blast intro: processed_date_valid dest: filtered_entries_subset)
    have key: "weekKey_of rt e = formatDate_yyyy_MM_dd rt (TimeClip ?ws)"
      using Some t by (rule weekKey_of_valid)
    have start: "startOfWeek rt (Some t) = TimeClip ?ws"
      using t by (rule startOfWeek_local)
    have a: "?lm = ?lt - (if WeekDay ?lt = 0 then 6 else WeekDay ?lt - 1) * msPerDay"
      by (simp add: local_monday_def days_since_monday_def)
    have b: "Day ?lm = Day ?lt - (if WeekDay ?lt = 0 then 6 else WeekDay ?lt - 1)"
      using local_monday_is_monday [of ?lt] by (simp add: days_since_monday_def)
    have inr: "counted_under rt ?filtered e (yyyy_MM_dd ?lm)"
      if "\<bar>?ws\<bar> \<le> maxTime" "LocalTime rt ?ws = ?lm"
    proof -
      have "weekKey_of rt e = yyyy_MM_dd ?lm"
        using that by (simp add: key TimeClip_def formatDate_local)
      with counted show ?thesis by simp
    qed
    have out: "counted_under rt ?filtered e ''NaN-NaN-NaN''" if "maxTime < \<bar>?ws\<bar>"
    proof -
      have "weekKey_of rt e = ''NaN-NaN-NaN''"
        using that by (simp add: key TimeClip_def formatDate_invalid)
      with counted show ?thesis by simp
    qed
    have iso: "Date_parse_ISO (yyyy_MM_dd ?lm) = Some (Day ?lm * msPerDay)"
      if "1000 \<le> YearFromTime ?lm" "YearFromTime ?lm \<le> 9999"
      using that by (rule yyyy_MM_dd_reads_as_day)
    show ?thesis
      unfolding Some option.case Let_def
      using a b local_monday_is_monday [of ?lt] start inr out iso
      by blast
  qed
  show "let filtered = ?filtered
      in distinct (map fst (weeklyUtilization rt filtered))
         \<and> (case Date e of
              None \<Rightarrow> counted_under rt filtered e ''NaN-NaN-NaN''
            | Some t \<Rightarrow>
                (let lt = LocalTime rt t; lm = local_monday lt; weekStart = UTC rt lm
                 in lm = lt - (if WeekDay lt = 0 then 6 else WeekDay lt - 1) * msPerDay
                    \<and> WeekDay lm = 1
                    \<and> Day lm = Day lt - (if WeekDay lt = 0 then 6 else WeekDay lt - 1)
                    \<and> TimeWithinDay lm = TimeWithinDay lt
                    \<and> startOfWeek rt (Date e) = TimeClip weekStart
                    \<and> (\<bar>weekStart\<bar> \<le> maxTime \<and> LocalTime rt weekStart = lm
                          \<longrightarrow> counted_under rt filtered e (yyyy_MM_dd lm))
                    \<and> (maxTime < \<bar>weekStart\<bar>
                          \<longrightarrow> counted_under rt filtered e ''NaN-NaN-NaN'')
                    \<and> (1000 \<le> YearFromTime lm \<and> YearFromTime lm \<le> 9999
                          \<longrightarrow> Date_parse_ISO (yyyy_MM_dd lm) = Some (Day lm * msPerDay))))"
    unfolding Let_def [of ?filtered] using keys dates by (rule conjI)
qed

text \<open>
  Four entries: a Wednesday and a Sunday of one week in UTC, both counted under the
  Monday 2024-01-15; five hours west of UTC, an entry whose local time is Wednesday
  evening, under the same Monday; and in New York an entry of the Sunday on which
  daylight saving time starts, under the Monday before, 2024-03-04, whose offset is
  another: its week start is six days less one hour before it.
\<close>

theorem week_of_valid_date_is_local_monday_witness:
  "counted_under (runtime_UTC 0)
      (filtered_entries (runtime_UTC 0) initial_criteria (processedData (runtime_UTC 0)
         (handleFileUpload [ann_lee ''2024-01-17'' ''8'', ann_lee ''2024-01-21'' ''4''])))
      (process_row (runtime_UTC 0) (ann_lee ''2024-01-17'' ''8'')) ''2024-01-15''
   \<and> counted_under (runtime_UTC 0)
      (filtered_entries (runtime_UTC 0) initial_criteria (processedData (runtime_UTC 0)
         (handleFileUpload [ann_lee ''2024-01-17'' ''8'', ann_lee ''2024-01-21'' ''4''])))
      (process_row (runtime_UTC 0) (ann_lee ''2024-01-21'' ''4'')) ''2024-01-15''
   \<and> counted_under (runtime_UTC_minus_5 0)
      (filtered_entries (runtime_UTC_minus_5 0) initial_criteria (processedData (runtime_UTC_minus_5 0)
         (handleFileUpload [ann_lee ''2024-01-18'' ''8''])))
      (process_row (runtime_UTC_minus_5 0) (ann_lee ''2024-01-18'' ''8'')) ''2024-01-15''
   \<and> counted_under (runtime_New_York_2024 0)
      (filtered_entries (runtime_New_York_2024 0) initial_criteria (processedData (runtime_New_York_2024 0)
         (handleFileUpload [ann_lee ''2024-03-11'' ''8''])))
      (process_row (runtime_New_York_2024 0) (ann_lee ''2024-03-11'' ''8'')) ''2024-03-04''
   \<and> startOfWeek (runtime_New_York_2024 0)
        (Date (process_row (runtime_New_York_2024 0) (ann_lee ''2024-03-11'' ''8'')))
      = Some (1710115200000 - 6 * msPerDay + 3600000)"
proof -
  let ?utc = "runtime_UTC 0" and ?west = "runtime_UTC_minus_5 0" and ?ny = "runtime_New_York_2024 0"
  let ?week = "[ann_lee ''2024-01-17'' ''8'', ann_lee ''2024-01-21'' ''4'']"
  have wed: "Date (process_row ?utc (ann_lee ''2024-01-17'' ''8'')) = Some 1705449600000"
    and sun: "Date (process_row ?utc (ann_lee ''2024-01-21'' ''4'')) = Some 1705795200000"
    and thu: "Date (process_row ?west (ann_lee ''2024-01-18'' ''8'')) = Some 1705536000000"
    and mar: "Date (process_row ?ny (ann_lee ''2024-03-11'' ''8'')) = Some 1710115200000"
    by (simp_all add: ann_lee_Date new_Date_def runtime_UTC_def runtime_UTC_minus_5_def
        runtime_New_York_2024_def parse_dates TimeClip_def maxTime_def)
  have utc: "LocalTime ?utc t = t" "UTC ?utc t = t" for t
    by (simp_all add: LocalTime_def UTC_def runtime_UTC_def)
  have west: "LocalTime ?west t = t - 18000000" "UTC ?west t = t + 18000000" for t
    by (simp_all add: LocalTime_def UTC_def runtime_UTC_minus_5_def)
  have 1: "counted_under ?utc
      (filtered_entries ?utc initial_criteria (processedData ?utc (handleFileUpload ?week)))
      (process_row ?utc (ann_lee ''2024-01-17'' ''8'')) ''2024-01-15''"
    using week_of_valid_date_is_local_monday
        [of "process_row ?utc (ann_lee ''2024-01-17'' ''8'')" ?utc initial_criteria "handleFileUpload ?week"]
      in_working_set [of "ann_lee ''2024-01-17'' ''8''" ?week ?utc]
    by (simp add: Let_def wed utc local_times week_keys maxTime_def ann_lee_truthy)
  have 2: "counted_under ?utc
      (filtered_entries ?utc initial_criteria (processedData ?utc (handleFileUpload ?week)))
      (process_row ?utc (ann_lee ''2024-01-21'' ''4'')) ''2024-01-15''"
    using week_of_valid_date_is_local_monday
        [of "process_row ?utc (ann_lee ''2024-01-21'' ''4'')" ?utc initial_criteria "handleFileUpload ?week"]
      in_working_set [of "ann_lee ''2024-01-21'' ''4''" ?week ?utc]
    by (simp add: Let_def sun utc local_times week_keys maxTime_def ann_lee_truthy)
  have 3: "counted_under ?west
      (filtered_entries ?west initial_criteria (processedData ?west
         (handleFileUpload [ann_lee ''2024-01-18'' ''8''])))
      (process_row ?west (ann_lee ''2024-01-18'' ''8'')) ''2024-01-15''"
    using week_of_valid_date_is_local_monday
        [of "process_row ?west (ann_lee ''2024-01-18'' ''8'')" ?west initial_criteria
            "handleFileUpload [ann_lee ''2024-01-18'' ''8'']"]
      in_working_set [of "ann_lee ''2024-01-18'' ''8''" "[ann_lee ''2024-01-18'' ''8'']" ?west]
    by (simp add: Let_def thu west local_times week_keys maxTime_def ann_lee_truthy)
  have 4: "counted_under ?ny
      (filtered_entries ?ny initial_criteria (processedData ?ny
         (handleFileUpload [ann_lee ''2024-03-11'' ''8''])))
      (process_row ?ny (ann_lee ''2024-03-11'' ''8'')) ''2024-03-04''"
    using week_of_valid_date_is_local_monday
        [of "process_row ?ny (ann_lee ''2024-03-11'' ''8'')" ?ny initial_criteria
            "handleFileUpload [ann_lee ''2024-03-11'' ''8'']"]
      in_working_set [of "ann_lee ''2024-03-11'' ''8''" "[ann_lee ''2024-03-11'' ''8'']" ?ny]
    by (simp add: Let_def mar New_York_times local_times week_keys maxTime_def ann_lee_truthy)
  have 5: "startOfWeek ?ny (Date (process_row ?ny (ann_lee ''2024-03-11'' ''8'')))
      = Some (1710115200000 - 6 * msPerDay + 3600000)"
    using week_of_valid_date_is_local_monday
        [of "process_row ?ny (ann_lee ''2024-03-11'' ''8'')" ?ny initial_criteria
            "handleFileUpload [ann_lee ''2024-03-11'' ''8'']"]
      in_working_set [of "ann_lee ''2024-03-11'' ''8''" "[ann_lee ''2024-03-11'' ''8'']" ?ny]
    by (simp add: Let_def mar New_York_times local_times TimeClip_def maxTime_def msPerDay_def
        ann_lee_truthy)
  show ?thesis
    using 1 2 3 4 5 by (intro conjI)
qed

section \<open>The rollup\<close>

text \<open>The numbers with \<open>+\<close> and \<open>0\<close> are a commutative monoid (\<open>NaN\<close> absorbs, opposite
  infinities give \<open>NaN\<close>), so a sum does not depend on the order of its terms.\<close>

instantiation number :: comm_monoid_add
begin

definition zero_number :: number where
  "zero_number = Fin 0"

definition plus_number :: "number \<Rightarrow> number \<Rightarrow> number" where
  "plus_number = js_add"

instance
proof
  fix a b c :: number
  show "a + b + c = a + (b + c)"
    unfolding plus_number_def by (cases a; cases b; cases c) simp_all
  show "a + b = b + a"
    unfolding plus_number_def by (cases a; cases b) simp_all
  show "0 + a = a"
    unfolding plus_number_def zero_number_def by (cases a) simp_all
qed

end

lemma js_sum_sum_list: "js_sum xs = sum_list xs"
proof -
  have "foldl js_add a xs = a + sum_list xs" for a
    by (induction xs arbitrary: a) (simp_all add: plus_number_def [symmetric] add.assoc)
  then show ?thesis by (simp add: js_sum_def zero_number_def [symmetric])
qed

lemma sum_list_update:
  fixes g :: "'v \<Rightarrow> 'm::comm_monoid_add"
  assumes "g v' = g (own_or dflt al k) + d" and "g dflt = 0"
  shows "sum_list (map (\<lambda>(k, v). g v) (AList.update k v' al)) = sum_list (map (\<lambda>(k, v). g v) al) + d"
  using assms
  by (induction al) (auto simp add: own_or_def add.assoc add.commute add.left_commute)

lemma sum_list_concat_map:
  fixes g :: "'a \<Rightarrow> 'm::comm_monoid_add"
  shows "sum_list (map g (concat xss)) = sum_list (map (\<lambda>xs. sum_list (map g xs)) xss)"
  by (induction xss) simp_all

lemma sum_list_leaves:
  fixes f :: "leaf \<Rightarrow> 'm::comm_monoid_add"
  shows "sum_list (map f (leaves tree))
     = sum_list (map (\<lambda>(client, ps). sum_list (map (\<lambda>(project, ts). sum_list (map (\<lambda>(task, l). f l) ts)) ps)) tree)"
  by (simp add: leaves_def sum_list_concat_map comp_def split_def)

lemma add_breakdown_row_Inr:
  assumes "add_breakdown_row tree row = Inr tree'"
  shows "tree' =
     (let client = ToString (columns row ''Client'');
          project = or_string (columns row ''Project'') ''No Project'';
          task = or_string (columns row ''Task'') ''No Task'';
          ps = own_or [] tree client;
          ts = own_or [] ps project;
          l0 = own_or new_leaf ts task
      in AList.update client (AList.update project (AList.update task (add_to_leaf l0 row) ts) ps) tree)"
  using assms
  by (auto simp add: add_breakdown_row_def Let_def get_property_def own_or_def
      split: option.splits if_splits property.splits)

lemma add_breakdown_row_sum:
  fixes f :: "leaf \<Rightarrow> 'm::comm_monoid_add"
  assumes r: "add_breakdown_row tree row = Inr tree'"
    and f0: "f new_leaf = 0" and fd: "\<And>l. f (add_to_leaf l row) = f l + d"
  shows "sum_list (map f (leaves tree')) = sum_list (map f (leaves tree)) + d"
proof -
  define client where "client = ToString (columns row ''Client'')"
  define project where "project = or_string (columns row ''Project'') ''No Project''"
  define task where "task = or_string (columns row ''Task'') ''No Task''"
  define ps where "ps = own_or [] tree client"
  define ts where "ts = own_or [] ps project"
  define l0 where "l0 = own_or new_leaf ts task"
  let ?gt = "\<lambda>ts :: tasks. sum_list (map (\<lambda>(task, l). f l) ts)"
  let ?gp = "\<lambda>ps :: projects. sum_list (map (\<lambda>(project, ts). ?gt ts) ps)"
  have tree': "tree' = AList.update client (AList.update project (AList.update task (add_to_leaf l0 row) ts) ps) tree"
    using add_breakdown_row_Inr [OF r]
    by (simp add: Let_def client_def project_def task_def ps_def ts_def l0_def)
  have t: "?gt (AList.update task (add_to_leaf l0 row) ts) = ?gt ts + d"
    by (rule sum_list_update [where dflt = new_leaf]) (simp_all add: fd f0 l0_def)
  have p: "?gp (AList.update project (AList.update task (add_to_leaf l0 row) ts) ps) = ?gp ps + d"
    by (rule sum_list_update [where dflt = "[]"]) (simp_all add: t ts_def [symmetric])
  have c: "sum_list (map (\<lambda>(client, ps). ?gp ps) tree') = sum_list (map (\<lambda>(client, ps). ?gp ps) tree) + d"
    unfolding tree' by (rule sum_list_update [where dflt = "[]"]) (simp_all add: p ps_def [symmetric])
  then show ?thesis by (simp add: sum_list_leaves)
qed

lemma breakdown_rows_sum:
  fixes f :: "leaf \<Rightarrow> 'm::comm_monoid_add"
  assumes r: "breakdown_rows tree rows = Inr tree'"
    and f0: "f new_leaf = 0" and fd: "\<And>l row. f (add_to_leaf l row) = f l + d row"
  shows "sum_list (map f (leaves tree')) = sum_list (map f (leaves tree)) + sum_list (map d rows)"
  using r
proof (induction rows arbitrary: tree)
  case Nil
  then show ?case by simp
next
  case (Cons row rows)
  then obtain tree1 where 1: "add_breakdown_row tree row = Inr tree1"
    and 2: "breakdown_rows tree1 rows = Inr tree'"
    by (auto split: sum.splits)
  have "sum_list (map f (leaves tree1)) = sum_list (map f (leaves tree)) + d row"
    using 1 f0 by (rule add_breakdown_row_sum) (rule fd)
  then show ?case
    using Cons.IH [OF 2] by (simp add: add.assoc)
qed

lemma leaf_hours_add: "leaf_hours (add_to_leaf l row) = leaf_hours l + Hours row"
  by (simp add: add_to_leaf_def Let_def plus_number_def)

lemma entries_add: "mset (entries (add_to_leaf l row)) = mset (entries l) + {#row#}"
  by (simp add: add_to_leaf_def Let_def)

lemma rollup_complete:
  assumes "internalBreakdown internal = Inr tree"
  shows "js_sum (map leaf_hours (leaves tree)) = js_sum (map Hours internal)
     \<and> mset (concat (map entries (leaves tree))) = mset internal"
proof -
  have h: "sum_list (map leaf_hours (leaves tree)) = sum_list (map leaf_hours (leaves [])) + sum_list (map Hours internal)"
    using assms unfolding internalBreakdown_def
    by (rule breakdown_rows_sum) (simp_all add: leaf_hours_add new_leaf_def zero_number_def)
  have e: "sum_list (map (\<lambda>l. mset (entries l)) (leaves tree))
      = sum_list (map (\<lambda>l. mset (entries l)) (leaves [])) + sum_list (map (\<lambda>row. {#row#}) internal)"
    using assms unfolding internalBreakdown_def
    by (rule breakdown_rows_sum) (simp_all add: entries_add new_leaf_def)
  have "mset (concat xss) = sum_list (map mset xss)" for xss :: "entry list list"
    by (induction xss) simp_all
  moreover have "sum_list (map (\<lambda>row. {#row#}) xs) = mset xs" for xs :: "entry list"
    by (induction xs) simp_all
  ultimately show ?thesis
    using h e by (simp add: js_sum_sum_list leaves_def comp_def)
qed

lemma add_breakdown_row_defined:
  assumes "ToString (columns row ''Client'') \<notin> set Object_prototype_keys"
    and "or_string (columns row ''Project'') ''No Project'' \<notin> set Object_prototype_keys"
    and "or_string (columns row ''Task'') ''No Task'' \<notin> set Object_prototype_keys"
  shows "\<exists>tree'. add_breakdown_row tree row = Inr tree'"
  using assms
  by (auto simp add: add_breakdown_row_def Let_def get_property_def split: option.splits property.splits)

lemma breakdown_rows_defined:
  assumes "\<forall>row \<in> set rows.
      ToString (columns row ''Client'') \<notin> set Object_prototype_keys
      \<and> or_string (columns row ''Project'') ''No Project'' \<notin> set Object_prototype_keys
      \<and> or_string (columns row ''Task'') ''No Task'' \<notin> set Object_prototype_keys"
  shows "\<exists>tree'. breakdown_rows tree rows = Inr tree'"
  using assms
proof (induction rows arbitrary: tree)
  case Nil
  then show ?case by simp
next
  case (Cons row rows)
  then obtain tree1 where "add_breakdown_row tree row = Inr tree1"
    using add_breakdown_row_defined [of row tree] by auto
  with Cons show ?case by simp
qed

lemma parseFloat_8: "parseFloat (Some ''8'') = Fin 8"
  by (simp add: parseFloat_def ToString_def is_space_def StrUnsignedDecimalLiteral_def
      is_digit_def digits_val_def digit_val_def scale10_def ExponentPart_def)

text \<open>
  C7 says that every internal entry is placed in exactly one leaf and that the leaf hours
  of the tree sum to the hours of the internal entries. For an internal row whose
  project is named \<open>constructor\<close> the read \<open>breakdown[client][project]\<close> finds the
  inherited built-in, no project object is made and the row leaves the tree: the tree
  has no leaf for it, while the internal hours are 8. (For rows whose names are not
  names of inherited properties the claim holds: \<open>rollup_complete\<close>,
  \<open>breakdown_rows_defined\<close>.)
\<close>

theorem breakdown_loses_row_of_project_constructor:
  "(let rt = runtime_UTC 0;
        internal = internalData (filtered_entries rt initial_criteria (processedData rt
          (handleFileUpload
             [[''Date'' \<mapsto> ''2024-01-24'', ''Client'' \<mapsto> ''Onica'',
               ''Project'' \<mapsto> ''constructor'', ''Task'' \<mapsto> ''Development'',
               ''Hours'' \<mapsto> ''8'']])))
    in map Hours internal = [Fin 8]
       \<and> internalBreakdown internal = Inl (Leaves_tree ''constructor''))"
  using parse_2024_01_24 parseFloat_8
  by (simp add: filtered_entries_eq passes_selects_def initial_criteria_def processedData_def
      handleFileUpload_def truthy_def process_row_def or_zero_def internalData_def
      Array_includes_def INTERNAL_CLIENTS_def sorted_by_def internalBreakdown_def
      add_breakdown_row_def ToString_def or_string_def get_property_def
      Object_prototype_keys_def)

section \<open>Recent shoutouts\<close>

lemma sorted_insert_sorted:
  assumes cmp: "\<forall>a \<in> insert x (set ys). \<forall>b \<in> insert x (set ys). cmp a b = Fin (f b - f a)"
    and s: "sorted_wrt (\<lambda>a b. f b \<le> f a) ys"
  shows "sorted_wrt (\<lambda>a b. f b \<le> f a) (insert_sorted cmp x ys)"
  using cmp s
proof (induction ys)
  case Nil
  then show ?case by simp
next
  case (Cons y ys)
  have c: "cmp x y = Fin (f y - f x)"
    using Cons.prems(1) by simp
  show ?case
  proof (cases "f x < f y")
    case True
    have "sorted_wrt (\<lambda>a b. f b \<le> f a) (insert_sorted cmp x ys)"
      using Cons.prems by (intro Cons.IH) auto
    with True Cons.prems(2) show ?thesis
      by (auto simp add: c SortCompare_def js_gt_def set_insert_sorted)
  next
    case False
    with Cons.prems(2) show ?thesis
      by (auto simp add: c SortCompare_def js_gt_def)
  qed
qed

lemma sorted_sorted_by:
  assumes "\<forall>a \<in> set xs. \<forall>b \<in> set xs. cmp a b = Fin (f b - f a)"
  shows "sorted_wrt (\<lambda>a b. f b \<le> f a) (sorted_by cmp xs)"
  using assms
proof (induction xs)
  case Nil
  then show ?case by (simp add: sorted_by_def)
next
  case (Cons x xs)
  have "sorted_wrt (\<lambda>a b. f b \<le> f a) (sorted_by cmp xs)"
    using Cons by simp
  then have "sorted_wrt (\<lambda>a b. f b \<le> f a) (insert_sorted cmp x (sorted_by cmp xs))"
    using Cons.prems by (intro sorted_insert_sorted) (auto simp add: set_sorted_by)
  then show ?case by (simp add: sorted_by_def)
qed

lemma weeklyUtilization_sorted:
  assumes valid: "\<forall>k \<in> set (map fst (weeklyUtilization rt filtered)). new_Date rt (Some k) \<noteq> None"
  shows "sorted_wrt (\<lambda>a b. the (new_Date rt (Some (fst b))) \<le> the (new_Date rt (Some (fst a))))
           (weeklyUtilization rt filtered)"
proof -
  let ?f = "\<lambda>b. real_of_int (the (new_Date rt (Some (fst b))))"
  let ?ws = "foldl (add_week_row rt) [] filtered"
  have v: "new_Date rt (Some (fst b)) \<noteq> None" if "b \<in> set ?ws" for b
    using valid that by (auto simp add: weeklyUtilization_def set_sorted_by)
  have "week_compare rt a b = Fin (?f b - ?f a)" if "a \<in> set ?ws" "b \<in> set ?ws" for a b
    using v [OF that(1)] v [OF that(2)] by (auto simp add: week_compare_def valueOf_def js_sub_def)
  then have "\<forall>a \<in> set ?ws. \<forall>b \<in> set ?ws. week_compare rt a b = Fin (?f b - ?f a)"
    by blast
  then have "sorted_wrt (\<lambda>a b. ?f b \<le> ?f a) (sorted_by (week_compare rt) ?ws)"
    by (rule sorted_sorted_by)
  then show ?thesis by (simp add: weeklyUtilization_def)
qed

lemma shoutout_from_first_three:
  assumes "Some (weekStart, employee) \<in> set (concat (Recent_Shoutouts wu))"
  shows "\<exists>i < 3. i < length wu \<and> fst (wu ! i) = weekStart"
proof -
  from assms obtain b where b: "b \<in> set (take 3 wu)" "fst b = weekStart"
    by (auto simp add: Recent_Shoutouts_def split: if_splits)
  then obtain i where "i < length (take 3 wu)" "take 3 wu ! i = b"
    by (auto simp add: in_set_conv_nth)
  with b show ?thesis by auto
qed

lemma newer_before:
  fixes g :: "'a \<Rightarrow> int"
  assumes s: "sorted_wrt (\<lambda>a b. g b \<le> g a) ws" and i: "i < length ws"
  shows "length (filter (\<lambda>b. g (ws ! i) < g b) ws) \<le> i"
proof -
  have ws: "ws = take i ws @ drop i ws" by simp
  have d: "drop i ws = ws ! i # drop (Suc i) ws"
    using i by (simp add: Cons_nth_drop_Suc)
  have "sorted_wrt (\<lambda>a b. g b \<le> g a) (drop i ws)"
    using s ws by (metis sorted_wrt_append)
  then have "\<forall>b \<in> set (drop i ws). g b \<le> g (ws ! i)"
    unfolding d by auto
  then have "filter (\<lambda>b. g (ws ! i) < g b) (drop i ws) = []"
    by (auto simp add: filter_empty_conv)
  then have "filter (\<lambda>b. g (ws ! i) < g b) ws = filter (\<lambda>b. g (ws ! i) < g b) (take i ws)"
    by (metis ws filter_append append_Nil2)
  moreover have "length (filter (\<lambda>b. g (ws ! i) < g b) (take i ws)) \<le> length (take i ws)"
    by (rule length_filter_le)
  ultimately show ?thesis using i by simp
qed

text \<open>
  The week keys are valid dates when the runtime reads ISO dates as the language says and
  every entry has a valid date whose week start, a local time that exists, can be
  represented and lies in the years 1000 to 9999.
\<close>

lemma week_keys_valid:
  assumes parser: "\<And>s t. Date_parse_ISO s = Some t \<Longrightarrow> Date_parse rt s = Some t"
    and valid: "\<forall>e \<in> set filtered. \<exists>t. Date e = Some t \<and> \<bar>t\<bar> \<le> maxTime
        \<and> \<bar>UTC rt (local_monday (LocalTime rt t))\<bar> \<le> maxTime
        \<and> LocalTime rt (UTC rt (local_monday (LocalTime rt t))) = local_monday (LocalTime rt t)
        \<and> 1000 \<le> YearFromTime (local_monday (LocalTime rt t))
        \<and> YearFromTime (local_monday (LocalTime rt t)) \<le> 9999"
  shows "\<forall>k \<in> set (map fst (weeklyUtilization rt filtered)). new_Date rt (Some k) \<noteq> None"
proof
  fix k
  assume "k \<in> set (map fst (weeklyUtilization rt filtered))"
  then have "k \<in> weekKey_of rt ` set filtered"
    using weeklyUtilization_keys [of rt filtered] by simp
  then obtain e where e: "e \<in> set filtered" and k: "k = weekKey_of rt e"
    by blast
  from valid e obtain t where t: "Date e = Some t" "\<bar>t\<bar> \<le> maxTime"
    and ws: "\<bar>UTC rt (local_monday (LocalTime rt t))\<bar> \<le> maxTime"
    and lm: "LocalTime rt (UTC rt (local_monday (LocalTime rt t))) = local_monday (LocalTime rt t)"
    and y: "1000 \<le> YearFromTime (local_monday (LocalTime rt t))"
      "YearFromTime (local_monday (LocalTime rt t)) \<le> 9999"
    by blast
  let ?lm = "local_monday (LocalTime rt t)"
  have "k = yyyy_MM_dd ?lm"
    using ws lm by (simp add: k weekKey_of_valid [OF t] TimeClip_def formatDate_local)
  moreover have "Date_parse rt (yyyy_MM_dd ?lm) = Some (Day ?lm * msPerDay)"
    using y by (intro parser yyyy_MM_dd_reads_as_day)
  ultimately show "new_Date rt (Some k) \<noteq> None"
    using day_of_four_digit_year [OF y] by (simp add: new_Date_def TimeClip_def)
qed

text \<open>The dates, week starts and days of the examples.\<close>

lemma four_weeks_dates:
  "new_Date (runtime_UTC 0) (Some ''2024-01-22'') = Some 1705881600000"
  "new_Date (runtime_UTC 0) (Some ''2024-01-15'') = Some 1705276800000"
  "new_Date (runtime_UTC 0) (Some ''2024-01-08'') = Some 1704672000000"
  "new_Date (runtime_UTC 0) (Some ''2024-01-01'') = Some 1704067200000"
  "new_Date (runtime_UTC 0) (Some ''2024-01-24'') = Some 1706054400000"
  "new_Date (runtime_UTC 0) (Some ''2024-01-17'') = Some 1705449600000"
  "new_Date (runtime_UTC 0) (Some ''2024-01-10'') = Some 1704844800000"
  "new_Date (runtime_UTC 0) (Some ''2024-01-03'') = Some 1704240000000"
  "new_Date (runtime_UTC 0) (Some ''n/a'') = None"
  "new_Date (runtime_UTC 0) (Some ''NaN-NaN-NaN'') = None"
  by (simp_all add: new_Date_def runtime_UTC_def Date_parse_ISO_def calendar_eval string_eval)

lemma four_weeks_starts:
  "startOfWeek (runtime_UTC 0) (Some 1706054400000) = Some 1705881600000"
  "startOfWeek (runtime_UTC 0) (Some 1705449600000) = Some 1705276800000"
  "startOfWeek (runtime_UTC 0) (Some 1704844800000) = Some 1704672000000"
  "startOfWeek (runtime_UTC 0) (Some 1704240000000) = Some 1704067200000"
  by (simp_all add: startOfWeek_UTC local_monday_def days_since_monday_def WeekDay_def Day_def
      msPerDay_def TimeClip_def maxTime_def)

lemma four_weeks_days:
  "formatDate_yyyy_MM_dd (runtime_UTC 0) (Some 1706054400000) = ''2024-01-24''"
  "formatDate_yyyy_MM_dd (runtime_UTC 0) (Some 1705449600000) = ''2024-01-17''"
  "formatDate_yyyy_MM_dd (runtime_UTC 0) (Some 1704844800000) = ''2024-01-10''"
  "formatDate_yyyy_MM_dd (runtime_UTC 0) (Some 1704240000000) = ''2024-01-03''"
  "formatDate_yyyy_MM_dd (runtime_UTC 0) (Some 1705881600000) = ''2024-01-22''"
  "formatDate_yyyy_MM_dd (runtime_UTC 0) (Some 1705276800000) = ''2024-01-15''"
  "formatDate_yyyy_MM_dd (runtime_UTC 0) (Some 1704672000000) = ''2024-01-08''"
  "formatDate_yyyy_MM_dd (runtime_UTC 0) (Some 1704067200000) = ''2024-01-01''"
  by (simp_all add: formatDate_UTC yyyy_MM_dd_def calendar_eval string_eval)

text \<open>
  C10, as stated, fails. A row with an unparsable date is kept and makes the week
  \<open>NaN-NaN-NaN\<close>; compared with it every week is neither older nor newer, and the
  sort no longer puts the newest weeks first. Of five rows dated 2024-01-03, \<open>n/a\<close>,
  2024-01-10, 2024-01-17 and 2024-01-24, each 40 billable hours, the week of 2024-01-01
  comes first and gets a shoutout, while three weeks are strictly newer.
\<close>

theorem shoutout_for_a_week_with_three_newer:
  "(let rt = runtime_UTC 0;
        wu = weeklyUtilization rt (filtered_entries rt initial_criteria (processedData rt
               (handleFileUpload
                  [ann_lee ''2024-01-03'' ''40'', ann_lee ''n/a'' ''40'',
                   ann_lee ''2024-01-10'' ''40'', ann_lee ''2024-01-17'' ''40'',
                   ann_lee ''2024-01-24'' ''40''])))
    in map fst wu
         = [''2024-01-01'', ''NaN-NaN-NaN'', ''2024-01-22'', ''2024-01-15'', ''2024-01-08'']
       \<and> Some (''2024-01-01'', ''Ann Lee'') \<in> set (concat (Recent_Shoutouts wu))
       \<and> filter (\<lambda>k. js_lt (week_value rt ''2024-01-01'') (week_value rt k)) (map fst wu)
           = [''2024-01-22'', ''2024-01-15'', ''2024-01-08''])"
proof -
  let ?rt = "runtime_UTC 0"
  let ?wu = "weeklyUtilization ?rt (filtered_entries ?rt initial_criteria (processedData ?rt
               (handleFileUpload
                  [ann_lee ''2024-01-03'' ''40'', ann_lee ''n/a'' ''40'',
                   ann_lee ''2024-01-10'' ''40'', ann_lee ''2024-01-17'' ''40'',
                   ann_lee ''2024-01-24'' ''40''])))"
  have wu: "map (\<lambda>(k, m). (k, map (\<lambda>(e, st). (e, shoutout_cond st)) m)) ?wu
      = [(''2024-01-01'', [(''Ann Lee'', True)]), (''NaN-NaN-NaN'', [(''Ann Lee'', True)]),
         (''2024-01-22'', [(''Ann Lee'', True)]), (''2024-01-15'', [(''Ann Lee'', True)]),
         (''2024-01-08'', [(''Ann Lee'', True)])]"
    by (simp add: pipeline_eval ann_lee_def shoutout_cond_def js_ge_def
        four_weeks_dates four_weeks_starts four_weeks_days parse_hours
        startOfWeek_invalid formatDate_invalid)
  have "map fst (map (\<lambda>(k, m). (k, map (\<lambda>(e, st). (e, shoutout_cond st)) m)) ?wu)
      = [''2024-01-01'', ''NaN-NaN-NaN'', ''2024-01-22'', ''2024-01-15'', ''2024-01-08'']"
    unfolding wu by simp
  then have keys: "map fst ?wu
      = [''2024-01-01'', ''NaN-NaN-NaN'', ''2024-01-22'', ''2024-01-15'', ''2024-01-08'']"
    by (simp add: comp_def case_prod_beta)
  have newer: "filter (\<lambda>k. js_lt (week_value ?rt ''2024-01-01'') (week_value ?rt k)) (map fst ?wu)
      = [''2024-01-22'', ''2024-01-15'', ''2024-01-08'']"
    unfolding keys by (simp add: week_value_def valueOf_def four_weeks_dates)
  obtain w ws where w: "?wu = w # ws"
    using keys by (cases ?wu) simp_all
  have "map (\<lambda>(k, m). (k, map (\<lambda>(e, st). (e, shoutout_cond st)) m)) [w]
      = [(''2024-01-01'', [(''Ann Lee'', True)])]"
    using wu unfolding w by simp
  then have "\<exists>st. w = (''2024-01-01'', [(''Ann Lee'', st)]) \<and> shoutout_cond st"
    by (cases w) (auto simp add: map_eq_Cons_conv)
  then have "Some (''2024-01-01'', ''Ann Lee'') \<in> set (concat (Recent_Shoutouts ?wu))"
    unfolding w by (auto simp add: Recent_Shoutouts_def)
  with keys newer show ?thesis
    by (simp add: Let_def)
qed

text \<open>
  C10, amended. Shoutouts are produced only from the first three weeks of the weekly
  utilization sequence; when every week key of the sequence is a valid date these are
  the three newest ones: a week that has three or more weeks strictly newer than it gets
  no shoutout, whether or not a record of it meets the recognition thresholds.
\<close>

theorem shoutouts_only_three_newest_weeks:
  "(Some (weekStart, employee) \<in> set (concat (Recent_Shoutouts wu))
      \<longrightarrow> (\<exists>i < 3. i < length wu \<and> fst (wu ! i) = weekStart))
   \<and> ((\<forall>k \<in> set (map fst (weeklyUtilization rt filtered)). new_Date rt (Some k) \<noteq> None)
       \<and> 3 \<le> length (filter (\<lambda>k. js_lt (week_value rt weekStart) (week_value rt k))
                        (map fst (weeklyUtilization rt filtered)))
      \<longrightarrow> Some (weekStart, employee)
            \<notin> set (concat (Recent_Shoutouts (weeklyUtilization rt filtered))))"
proof -
  let ?wu = "weeklyUtilization rt filtered"
  let ?g = "\<lambda>b. the (new_Date rt (Some (fst b)))"
  have False
    if valid: "\<forall>k \<in> set (map fst ?wu). new_Date rt (Some k) \<noteq> None"
      and three: "3 \<le> length (filter (\<lambda>k. js_lt (week_value rt weekStart) (week_value rt k)) (map fst ?wu))"
      and shout: "Some (weekStart, employee) \<in> set (concat (Recent_Shoutouts ?wu))"
  proof -
    from shoutout_from_first_three [OF shout]
    obtain i where i: "i < 3" "i < length ?wu" "fst (?wu ! i) = weekStart" by blast
    have v: "new_Date rt (Some (fst b)) \<noteq> None" if "b \<in> set ?wu" for b
      using valid that by auto
    have lt: "js_lt (week_value rt weekStart) (week_value rt (fst b)) \<longleftrightarrow> ?g (?wu ! i) < ?g b"
      if "b \<in> set ?wu" for b
      using v [OF that] v [of "?wu ! i"] i by (auto simp add: week_value_def valueOf_def)
    have "length (filter (\<lambda>k. js_lt (week_value rt weekStart) (week_value rt k)) (map fst ?wu))
        = length (filter (\<lambda>b. js_lt (week_value rt weekStart) (week_value rt (fst b))) ?wu)"
      by (simp add: filter_map comp_def)
    also have "filter (\<lambda>b. js_lt (week_value rt weekStart) (week_value rt (fst b))) ?wu
        = filter (\<lambda>b. ?g (?wu ! i) < ?g b) ?wu"
      by (rule filter_cong) (simp_all add: lt)
    also have "length \<dots> \<le> i"
      using weeklyUtilization_sorted [OF valid] i(2) by (rule newer_before)
    finally show False using three i(1) by simp
  qed
  then show ?thesis
    using shoutout_from_first_three [of weekStart employee wu] by blast
qed

lemma four_weeks_records:
  "map (\<lambda>(k, m). (k, map (\<lambda>(e, st). (e, shoutout_cond st)) m))
       (weeklyUtilization (runtime_UTC 0) four_weeks_filtered)
     = [(''2024-01-22'', [(''Ann Lee'', True)]), (''2024-01-15'', [(''Ann Lee'', False)]),
        (''2024-01-08'', [(''Ann Lee'', True)]), (''2024-01-01'', [(''Ann Lee'', True)])]"
  by (simp add: four_weeks_filtered_def four_weeks_def filtered_entries_eq passes_selects_def
      initial_criteria_def processedData_def handleFileUpload_def truthy_def process_row_def
      Array_includes_def INTERNAL_CLIENTS_def sorted_by_def SortCompare_def js_sub_def
      js_gt_def valueOf_def weeklyUtilization_def add_week_row_def week_compare_def
      new_stats_def Set_add_def shoutout_cond_def js_ge_def Let_def ToString_def or_zero_def
      four_weeks_dates four_weeks_starts four_weeks_days parse_hours)

theorem shoutouts_only_three_newest_weeks_witness:
  "Some (''2024-01-01'', ''Ann Lee'')
     \<notin> set (concat (Recent_Shoutouts (weeklyUtilization (runtime_UTC 0) four_weeks_filtered)))
   \<and> map (\<lambda>(k, m). (k, map (\<lambda>(e, st). (e, shoutout_cond st)) m))
         (weeklyUtilization (runtime_UTC 0) four_weeks_filtered)
     = [(''2024-01-22'', [(''Ann Lee'', True)]), (''2024-01-15'', [(''Ann Lee'', False)]),
        (''2024-01-08'', [(''Ann Lee'', True)]), (''2024-01-01'', [(''Ann Lee'', True)])]"
proof -
  let ?wu = "weeklyUtilization (runtime_UTC 0) four_weeks_filtered"
  have "map fst (map (\<lambda>(k, m). (k, map (\<lambda>(e, st). (e, shoutout_cond st)) m)) ?wu)
      = [''2024-01-22'', ''2024-01-15'', ''2024-01-08'', ''2024-01-01'']"
    unfolding four_weeks_records by simp
  then have keys: "map fst ?wu = [''2024-01-22'', ''2024-01-15'', ''2024-01-08'', ''2024-01-01'']"
    by (simp add: comp_def case_prod_beta)
  have valid: "\<forall>k \<in> set (map fst ?wu). new_Date (runtime_UTC 0) (Some k) \<noteq> None"
    unfolding keys using four_weeks_dates by simp
  have three: "3 \<le> length (filter (\<lambda>k. js_lt (week_value (runtime_UTC 0) ''2024-01-01'')
                                      (week_value (runtime_UTC 0) k)) (map fst ?wu))"
    unfolding keys using four_weeks_dates by (simp add: week_value_def valueOf_def)
  show ?thesis
    using shoutouts_only_three_newest_weeks
        [of "''2024-01-01''" "''Ann Lee''" ?wu "runtime_UTC 0" four_weeks_filtered]
      valid three four_weeks_records
    by blast
qed

end
